theory Spec2Isabelle
  imports Complex_Main "HOL-Library.AList" "HOL-Library.Log_Nat"
begin

section \<open>Python values\<close>

text \<open>
  A Python \<open>str\<close> is a \<^typ>\<open>string\<close>: the UTF-8 bytes of the text, so that a
  glyph outside ASCII in a literal of the source is written as its bytes. Concatenation,
  equality and dictionary lookup are those of the byte strings. The methods \<open>strip\<close>,
  \<open>split\<close>, \<open>splitlines\<close> and \<open>lower\<close> of \<open>str\<close> follow the Unicode tables
  of the runtime: the model takes them as functions (\<open>str_methods\<close>).

  A Python \<open>float\<close> is a \<^typ>\<open>rat\<close>. A float that the program writes as a literal
  or gets from \<open>round(x, n)\<close> is represented by that decimal, which names one float
  (\<open>0.95\<close> is the float that Python prints as \<open>0.95\<close>); comparing two such floats
  is comparing their decimals. Where the program computes with floats (a product, a
  difference) or compares a computed float with a literal, the model takes the rationals
  that the floats are (\<open>fl d\<close> for the float of the decimal \<open>d\<close>) and rounds each
  result to the nearest float, as IEEE 754 does.

  A \<open>dict\<close> with string keys is an association list in insertion order, as Python
  iterates it; \<^const>\<open>AList.update\<close> overwrites the value of a key in place and adds a
  new key at the end, which is what an assignment \<open>d[k] = v\<close> does.
\<close>

type_synonym 'v pydict = "(string \<times> 'v) list"

type_synonym entity_map = "string list pydict"

definition round_half_even :: "rat \<Rightarrow> int" where
  "round_half_even y =
     (let f = \<lfloor>y\<rfloor>; d = y - of_int f
      in if d < 1 / 2 then f
         else if 1 / 2 < d then f + 1
         else if even f then f else f + 1)"

text \<open>\<open>round(x, n)\<close> for \<open>n \<ge> 0\<close>: the closest multiple of \<open>10\<^sup>-\<^sup>n\<close>, a tie going to
  the even one.\<close>

definition py_round :: "rat \<Rightarrow> nat \<Rightarrow> rat" where
  "py_round x n = of_int (round_half_even (x * 10 ^ n)) / 10 ^ n"

text \<open>The exponent of a positive rational: the \<open>e\<close> with \<open>2\<^sup>e \<le> x < 2\<^sup>e\<^sup>+\<^sup>1\<close>. It is the
  difference of the bit lengths of the numerator and the denominator, or one less.\<close>

definition binary_exponent :: "rat \<Rightarrow> int" where
  "binary_exponent x =
     (let (p, q) = quotient_of x; d = bitlen p - bitlen q
      in if 2 powi d \<le> x then d else d - 1)"

text \<open>The double nearest to a rational (below the range where doubles overflow): the
  rational is rounded to a multiple of the spacing of the doubles at its exponent, 52 bits
  below the exponent (and not below \<open>2\<^sup>-\<^sup>1\<^sup>0\<^sup>7\<^sup>4\<close>), a tie going to the even multiple.\<close>

definition fl :: "rat \<Rightarrow> rat" where
  "fl x =
     (if x = 0 then 0
      else let ulp = 2 powi (max (binary_exponent \<bar>x\<bar>) (- 1022) - 52)
           in sgn x * of_int (round_half_even (\<bar>x\<bar> / ulp)) * ulp)"

text \<open>The methods of \<open>str\<close> that the program calls without arguments.\<close>

record str_methods =
  str_strip :: "string \<Rightarrow> string"
  str_lower :: "string \<Rightarrow> string"
  str_split :: "string \<Rightarrow> string list"
  str_splitlines :: "string \<Rightarrow> string list"

text \<open>\<open>xs[:k]\<close> for a Python integer \<open>k\<close>: a negative \<open>k\<close> counts from the end.\<close>

definition py_slice_to :: "int \<Rightarrow> 'a list \<Rightarrow> 'a list" where
  "py_slice_to k xs =
     (if 0 \<le> k then take (nat k) xs else take (length xs - nat (- k)) xs)"

text \<open>\<open>list(dict.fromkeys(xs))\<close>: the elements of \<open>xs\<close> without the repetitions, each
  at the place of its first occurrence.\<close>

fun fromkeys_acc :: "'a list \<Rightarrow> 'a list \<Rightarrow> 'a list" where
  "fromkeys_acc seen [] = seen"
| "fromkeys_acc seen (x # xs) =
     (if x \<in> set seen then fromkeys_acc seen xs else fromkeys_acc (seen @ [x]) xs)"

definition fromkeys :: "'a list \<Rightarrow> 'a list" where
  "fromkeys xs = fromkeys_acc [] xs"

text \<open>\<open>max(xs, key=f)\<close> on a non-empty iterable: the first element, in iteration
  order, whose key is the greatest.\<close>

fun max_key_from :: "('a \<Rightarrow> nat) \<Rightarrow> 'a \<Rightarrow> 'a list \<Rightarrow> 'a" where
  "max_key_from f best [] = best"
| "max_key_from f best (x # xs) =
     (if f best < f x then max_key_from f x xs else max_key_from f best xs)"

text \<open>Iterating a \<open>set\<close> of strings: the order depends on the hash values, which the
  runtime salts per process. The model takes a ranking \<open>hash_rank\<close> of the strings from
  the runtime and iterates the distinct elements by rank; every order of the elements is
  the order of some ranking.\<close>

definition set_iter :: "(string \<Rightarrow> nat) \<Rightarrow> string list \<Rightarrow> string list" where
  "set_iter hash_rank xs = sort_key hash_rank (remdups xs)"


section \<open>nlp_engine.py: ContextMemory\<close>

record turn =
  turn_role :: string
  turn_text :: string
  turn_intent :: "string option"
  turn_entities :: entity_map
  turn_timestamp :: rat

record memory =
  window :: nat
  turns :: "turn list"
  entities_seen :: entity_map
  topic_history :: "string list"

text \<open>\<open>deque(maxlen=window)\<close> refuses a negative \<open>maxlen\<close>, so a memory has a window
  in \<^typ>\<open>nat\<close>.\<close>

definition new_memory :: "nat \<Rightarrow> memory" where
  "new_memory w = \<lparr>window = w, turns = [], entities_seen = [], topic_history = []\<rparr>"

text \<open>\<open>deque.append\<close> on a bounded deque: the element goes in on the right, and when
  the deque is then longer than \<open>maxlen\<close> the leftmost element leaves.\<close>

definition deque_append :: "nat \<Rightarrow> 'a list \<Rightarrow> 'a \<Rightarrow> 'a list" where
  "deque_append maxlen q x =
     (let q' = q @ [x] in if maxlen < length q' then tl q' else q')"

text \<open>\<open>self.entities_seen.setdefault(k, []).extend(v)\<close> for each item of \<open>entities\<close>.\<close>

definition setdefault_extend :: "entity_map \<Rightarrow> string \<times> string list \<Rightarrow> entity_map" where
  "setdefault_extend seen kv =
     (case kv of (k, v) \<Rightarrow>
        AList.update k ((case map_of seen k of None \<Rightarrow> [] | Some old \<Rightarrow> old) @ v) seen)"

definition truthy_str :: "string option \<Rightarrow> bool" where
  "truthy_str s = (case s of None \<Rightarrow> False | Some t \<Rightarrow> t \<noteq> [])"

definition or_empty :: "entity_map option \<Rightarrow> entity_map" where
  "or_empty e = (case e of None \<Rightarrow> [] | Some d \<Rightarrow> d)"

text \<open>\<open>add_turn\<close>; \<open>now\<close> is what \<open>time.time()\<close> returns during the call.\<close>

definition make_turn :: "rat \<Rightarrow> string \<Rightarrow> string \<Rightarrow> string option \<Rightarrow> entity_map option \<Rightarrow> turn" where
  "make_turn now role txt intent entities =
     \<lparr>turn_role = role, turn_text = txt, turn_intent = intent,
      turn_entities = or_empty entities, turn_timestamp = now\<rparr>"

definition add_turn ::
  "memory \<Rightarrow> rat \<Rightarrow> string \<Rightarrow> string \<Rightarrow> string option \<Rightarrow> entity_map option \<Rightarrow> memory" where
  "add_turn m now role txt intent entities =
     m\<lparr>turns := deque_append (window m) (turns m) (make_turn now role txt intent entities),
       topic_history :=
         (if truthy_str intent \<and> role = ''user''
          then topic_history m @ [the intent] else topic_history m),
       entities_seen := foldl setdefault_extend (entities_seen m) (or_empty entities)\<rparr>"

definition clear :: "memory \<Rightarrow> memory" where
  "clear m = m\<lparr>turns := [], entities_seen := [], topic_history := []\<rparr>"

text \<open>The calls a client makes on a memory, to state what holds after any sequence of
  them.\<close>

datatype mem_call =
  AddTurn rat string string "string option" "entity_map option"
| Clear

fun call_memory :: "memory \<Rightarrow> mem_call \<Rightarrow> memory" where
  "call_memory m (AddTurn now role txt intent entities) = add_turn m now role txt intent entities"
| "call_memory m Clear = clear m"

fun turn_of :: "mem_call \<Rightarrow> turn" where
  "turn_of (AddTurn now role txt intent entities) = make_turn now role txt intent entities"
| "turn_of Clear = make_turn 0 [] [] None None"

fun is_add :: "mem_call \<Rightarrow> bool" where
  "is_add (AddTurn now role txt intent entities) = True"
| "is_add Clear = False"



subsection \<open>get_summary\<close>

text \<open>\<open>str(n)\<close> for the length of the queue.\<close>

function str_of_nat :: "nat \<Rightarrow> string" where
  "str_of_nat n =
     (if n < 10 then [char_of (48 + n)]
      else str_of_nat (n div 10) @ [char_of (48 + n mod 10)])"
  by pat_completeness auto
termination
  by (relation "measure id") auto

declare str_of_nat.simps [simp del]

text \<open>\<open>repr\<close> of a list of strings, as the f-string prints \<open>list(keys)\<close>: each key
  between single quotes. (This is Python's \<open>repr\<close> of a string without quotes,
  backslashes and unprintable characters, as the entity types are.)\<close>

definition repr_str :: "string \<Rightarrow> string" where
  "repr_str s = [CHR 0x27] @ s @ [CHR 0x27]"

fun join :: "string \<Rightarrow> string list \<Rightarrow> string" where
  "join sep [] = []"
| "join sep [s] = s"
| "join sep (s # t # ss) = s @ sep @ join sep (t # ss)"

definition repr_list :: "string list \<Rightarrow> string" where
  "repr_list ks = ''['' @ join '', '' (map repr_str ks) @ '']''"

definition middot :: string where
  "middot = [CHR 0xC2, CHR 0xB7]"

definition summary_line :: "nat \<Rightarrow> string \<Rightarrow> string list \<Rightarrow> string" where
  "summary_line n dominant ks =
     str_of_nat n @ '' turns '' @ middot @ '' dominant intent: '' @ dominant @ '' '' @ middot
       @ '' entities seen: '' @ repr_list ks"

text \<open>\<open>max(set(self.topic_history), key=self.topic_history.count)\<close>, guarded by
  \<open>if self.topic_history\<close>: the set of a non-empty list is not empty.\<close>

definition top_intent :: "(string \<Rightarrow> nat) \<Rightarrow> string list \<Rightarrow> string" where
  "top_intent hash_rank history =
     (if history \<noteq> []
      then max_key_from (count_list history)
             (hd (set_iter hash_rank history)) (tl (set_iter hash_rank history))
      else ''N/A'')"

definition get_summary :: "(string \<Rightarrow> nat) \<Rightarrow> memory \<Rightarrow> string" where
  "get_summary hash_rank m =
     (let n = length (turns m)
      in summary_line n (top_intent hash_rank (topic_history m)) (map fst (entities_seen m)))"


section \<open>nlp_engine.py: the intent catalogue and the entity patterns\<close>

text \<open>A pattern is the text of the source's raw string, with \<open>%\<close> written for the
  backslash (no pattern holds a \<open>%\<close>). The regular expression engine is Python's: the
  model takes \<open>re.search(pat, text, re.IGNORECASE)\<close> and \<open>re.findall(pat, text)\<close>
  as functions of the pattern and the text.\<close>

definition rx :: "string \<Rightarrow> string" where
  "rx s = map (\<lambda>c. if c = CHR ''%'' then CHR 0x5C else c) s"

definition INTENT_PATTERNS :: "string list pydict" where
  "INTENT_PATTERNS =
    [(''greeting'',
      [rx ''%b(hi|hello|hey|howdy|good%s*(morning|afternoon|evening)|what'?s%s*up|sup|yo)%b'']),
     (''farewell'',
      [rx ''%b(bye|goodbye|see%s*you|later|take%s*care|have%s*a%s*(good|nice)%s*(day|night)|quit|exit)%b'']),
     (''thanks'',
      [rx ''%b(thank(s|you|s?%s*a%s*lot|s?%s*so%s*much)|appreciate|grateful|cheers)%b'']),
     (''help'',
      [rx ''%b(help|assist|support|what%s*can%s*you%s*do|how%s*do%s*i|usage|guide)%b'']),
     (''weather'',
      [rx ''%b(weather|temperature|forecast|rain|sunny|cloudy|wind)%b'']),
     (''time_date'',
      [rx ''%b(time|date|day|today|tomorrow|yesterday|clock|what%s*time)%b'']),
     (''joke'',
      [rx ''%b(joke|funny|laugh|humor|amuse|entertain)%b'']),
     (''sentiment_query'',
      [rx ''%b(how%s*(am%s*i|are%s*you|do%s*i%s*feel)|feel(ing)?|mood|emotion|sentiment)%b'']),
     (''name_identity'',
      [rx ''%b(your%s*name|who%s*are%s*you|what%s*are%s*you|introduce%s*yourself|are%s*you%s*(ai|bot|robot))%b'']),
     (''capability'',
      [rx ''%b(what%s*can|features|abilities|skills|trained|capable|do%s*you%s*support)%b'']),
     (''general'', [])]"

definition NER_PATTERNS :: "string pydict" where
  "NER_PATTERNS =
    [(''EMAIL'', rx ''[a-zA-Z0-9_.+-]+@[a-zA-Z0-9-]+%.[a-zA-Z0-9-.]+''),
     (''PHONE'', rx ''(?:%+?%d{1,3}[-.%s]?)?%(?%d{2,4}%)?[-.%s]?%d{3,4}[-.%s]?%d{3,6}''),
     (''URL'', rx (''https?://[^%s<>%'' @ [CHR 0x22, CHR 0x27] @ '']+'')),
     (''DATE'', rx ''%b(?:(?:0?[1-9]|[12]%d|3[01])[-/](?:0?[1-9]|1[0-2])[-/]%d{2,4}|%d{4}[-/](?:0?[1-9]|1[0-2])[-/](?:0?[1-9]|[12]%d|3[01]))%b''),
     (''TIME'', rx ''%b%d{1,2}:%d{2}(?:%s*[AaPp][Mm])?%b''),
     (''CURRENCY'', rx (''(?:[%$'' @ [CHR 0xE2, CHR 0x82, CHR 0xAC, CHR 0xC2, CHR 0xA3, CHR 0xE2, CHR 0x82, CHR 0xB9] @ '']%s*%d+(?:,%d{3})*(?:%.%d{1,2})?|%d+(?:,%d{3})*(?:%.%d{1,2})?%s*(?:USD|EUR|GBP|INR|dollars?|euros?|pounds?|rupees?))'')),
     (''PERSON'', rx ''%b(?:Mr|Mrs|Ms|Dr|Prof)%.?%s+[A-Z][a-z]+(?:%s+[A-Z][a-z]+){0,2}%b''),
     (''CITY'', rx ''%b(?:New%s*York|Los%s*Angeles|Chicago|Houston|Phoenix|San%s*Francisco|London|Paris|Tokyo|Mumbai|Delhi|Bangalore|Bengaluru|Chennai|Kolkata|Sydney|Berlin|Dubai|Singapore)%b'')]"

definition TFIDF_CORPUS :: "string pydict" where
  "TFIDF_CORPUS =
    [(''greeting'', ''hello hi hey good morning''),
     (''farewell'', ''bye goodbye see you later take care''),
     (''thanks'', ''thank you thanks a lot appreciate''),
     (''help'', ''help me how do I what can you do guide''),
     (''weather'', ''what is the weather forecast temperature''),
     (''time_date'', ''what time is it what is today's date''),
     (''joke'', ''tell me a joke make me laugh funny''),
     (''sentiment_query'', ''how are you feeling mood emotion''),
     (''name_identity'', ''what is your name who are you introduce yourself''),
     (''capability'', ''what features do you have what can you do abilities'')]"

definition corpus_labels :: "string list" where
  "corpus_labels = map fst TFIDF_CORPUS"


section \<open>nlp_engine.py: IntentRecogniser\<close>

text \<open>Stage 1 of \<open>predict\<close>: the two nested loops over the catalogue; \<open>None\<close> when
  the loops end without a \<open>return\<close>.\<close>

fun regex_stage ::
  "(string \<Rightarrow> string \<Rightarrow> bool) \<Rightarrow> string list pydict \<Rightarrow> string \<Rightarrow> (string \<times> rat) option" where
  "regex_stage re_search [] text = None"
| "regex_stage re_search ((label, pats) # rest) text =
     (if label = ''general'' then regex_stage re_search rest text
      else if list_ex (\<lambda>pat. re_search pat text) pats then Some (label, 0.95)
      else regex_stage re_search rest text)"

text \<open>\<open>np.argmax\<close>: the index of the first greatest entry of a non-empty array.\<close>

fun argmax_from :: "rat list \<Rightarrow> nat \<Rightarrow> nat \<Rightarrow> rat \<Rightarrow> nat" where
  "argmax_from [] i best_i best = best_i"
| "argmax_from (x # xs) i best_i best =
     (if best < x then argmax_from xs (Suc i) i x else argmax_from xs (Suc i) best_i best)"

definition argmax :: "rat list \<Rightarrow> nat" where
  "argmax xs = argmax_from (tl xs) 1 0 (hd xs)"

text \<open>Stage 2 of \<open>predict\<close>, the body of the \<open>try\<close>. The argument is what
  \<open>cosine_similarity(self._vectoriser.transform([text]), self._corpus_vecs)[0]\<close> gives:
  \<open>None\<close> when it raises, else the array of similarities. \<open>None\<close> as the result is
  the way to the final \<open>return\<close>: an exception (of the transform, of \<open>argmax\<close> on an
  empty array, of the index into the labels) or a best similarity of at most 0.12. The
  similarities are floats, and no float lies between the float of the literal \<open>0.12\<close>,
  which is below 0.12, and 0.12: the comparison with the literal is the comparison with
  0.12.\<close>

definition tfidf_stage :: "rat list option \<Rightarrow> (string \<times> rat) option" where
  "tfidf_stage sims_opt =
     (case sims_opt of
        None \<Rightarrow> None
      | Some sims \<Rightarrow>
          if sims = [] then None
          else let best_idx = argmax sims; best_sim = sims ! best_idx
               in if 0.12 < best_sim
                  then (if best_idx < length corpus_labels
                        then Some (corpus_labels ! best_idx, py_round best_sim 3)
                        else None)
                  else None)"


definition predict ::
  "(string \<Rightarrow> string \<Rightarrow> bool) \<Rightarrow> (string \<Rightarrow> rat list option) \<Rightarrow> string \<Rightarrow> string \<times> rat" where
  "predict re_search tfidf_sims text =
     (case regex_stage re_search INTENT_PATTERNS text of
        Some hit \<Rightarrow> hit
      | None \<Rightarrow>
          (case tfidf_stage (tfidf_sims text) of
             Some hit \<Rightarrow> hit
           | None \<Rightarrow> (''general'', 0.50)))"

text \<open>\<open>predict_multi\<close>: every catalogue entry with a matching pattern gives one hit.\<close>

fun regex_hits ::
  "(string \<Rightarrow> string \<Rightarrow> bool) \<Rightarrow> string list pydict \<Rightarrow> string \<Rightarrow> (string \<times> rat) list" where
  "regex_hits re_search [] text = []"
| "regex_hits re_search ((label, pats) # rest) text =
     (if label = ''general'' then regex_hits re_search rest text
      else if list_ex (\<lambda>pat. re_search pat text) pats
      then (label, 0.95) # regex_hits re_search rest text
      else regex_hits re_search rest text)"

text \<open>\<open>np.argsort\<close>: the indices in ascending order of the entries. The default sort
  of numpy is not stable, so the order of the indices of equal entries is the runtime's:
  the model takes a ranking \<open>tie\<close> of the indices from the runtime and orders equal
  entries by it (the second sort is stable). Every ascending order of the indices is the
  order of some ranking.\<close>

definition argsort :: "(nat \<Rightarrow> nat) \<Rightarrow> rat list \<Rightarrow> nat list" where
  "argsort tie sims = sort_key (\<lambda>i. sims ! i) (sort_key tie [0..<length sims])"

text \<open>The loop over \<open>ranked\<close>. An index beyond the labels raises inside the \<open>try\<close>:
  the loop ends there and the hits made so far stay. The similarity is compared with the
  float of the literal \<open>0.05\<close>, which is above 0.05: a similarity that is this float is
  no candidate.\<close>

fun stat_hits :: "rat list \<Rightarrow> nat list \<Rightarrow> (string \<times> rat) list" where
  "stat_hits sims [] = []"
| "stat_hits sims (idx # rest) =
     (if fl 0.05 < sims ! idx
      then (if idx < length corpus_labels
            then (corpus_labels ! idx, py_round (sims ! idx) 3) # stat_hits sims rest
            else [])
      else stat_hits sims rest)"

text \<open>One step of the deduplication loop over \<open>hits\<close>.\<close>

definition see :: "rat pydict \<Rightarrow> string \<times> rat \<Rightarrow> rat pydict" where
  "see seen hit =
     (case hit of (label, conf) \<Rightarrow>
        (case map_of seen label of
           None \<Rightarrow> AList.update label conf seen
         | Some old \<Rightarrow> if old < conf then AList.update label conf seen else seen))"

text \<open>The hits of \<open>predict_multi\<close> before the deduplication: the regex hits, the
  statistical candidates when there is no regex hit, the fallback pair when there is
  none of either.\<close>

definition multi_hits ::
  "(string \<Rightarrow> string \<Rightarrow> bool) \<Rightarrow> (string \<Rightarrow> rat list option) \<Rightarrow> (nat \<Rightarrow> nat) \<Rightarrow> string \<Rightarrow> int
     \<Rightarrow> (string \<times> rat) list" where
  "multi_hits re_search tfidf_sims tie text top_k =
     (let hits = regex_hits re_search INTENT_PATTERNS text;
          hits = (if hits = []
                  then (case tfidf_sims text of
                          None \<Rightarrow> []
                        | Some sims \<Rightarrow>
                            stat_hits sims (py_slice_to top_k (rev (argsort tie sims))))
                  else hits)
      in if hits = [] then [(''general'', 0.50)] else hits)"

definition predict_multi ::
  "(string \<Rightarrow> string \<Rightarrow> bool) \<Rightarrow> (string \<Rightarrow> rat list option) \<Rightarrow> (nat \<Rightarrow> nat) \<Rightarrow> string \<Rightarrow> int
     \<Rightarrow> (string \<times> rat) list" where
  "predict_multi re_search tfidf_sims tie text top_k =
     (let hits = multi_hits re_search tfidf_sims tie text top_k;
          seen = foldl see [] hits
      in py_slice_to top_k (sort_key (\<lambda>x. - snd x) seen))"


section \<open>nlp_engine.py: NERExtractor\<close>

text \<open>One round of the loop of \<open>extract\<close> over the pattern table.\<close>

definition ner_step ::
  "(string \<Rightarrow> string \<Rightarrow> string list) \<Rightarrow> string \<Rightarrow> entity_map \<Rightarrow> string \<times> string
     \<Rightarrow> entity_map" where
  "ner_step re_findall text entities lp =
     (case lp of (label, pattern) \<Rightarrow>
        let matches = re_findall pattern text
        in if matches \<noteq> [] then AList.update label (fromkeys matches) entities
           else entities)"

definition ner_extract :: "(string \<Rightarrow> string \<Rightarrow> string list) \<Rightarrow> string \<Rightarrow> entity_map" where
  "ner_extract re_findall text = foldl (ner_step re_findall text) [] NER_PATTERNS"


section \<open>sentiment_engine.py: SentimentAnalyser\<close>

text \<open>The two pipelines are fitted by scikit-learn when the module is loaded. The model
  takes \<open>predict_proba\<close> of each as a function from the text and the class to the
  probability of the class; \<open>classes_\<close> is the sorted list of the labels of the
  training data.\<close>

definition pol_classes :: "string list" where
  "pol_classes = [''negative'', ''neutral'', ''positive'']"

definition emo_classes :: "string list" where
  "emo_classes = [''anger'', ''fear'', ''joy'', ''neutral'', ''sadness'', ''surprise'']"

record sentiment =
  polarity :: string
  polarity_conf :: rat
  emotion :: string
  emotion_conf :: rat
  subjectivity :: string
  emoji :: string

definition EMOJI_MAP :: "string pydict" where
  "EMOJI_MAP =
    [(''joy'', [CHR 0xF0, CHR 0x9F, CHR 0x98, CHR 0x84]),
     (''anger'', [CHR 0xF0, CHR 0x9F, CHR 0x98, CHR 0xA0]),
     (''sadness'', [CHR 0xF0, CHR 0x9F, CHR 0x98, CHR 0xA2]),
     (''fear'', [CHR 0xF0, CHR 0x9F, CHR 0x98, CHR 0xA8]),
     (''surprise'', [CHR 0xF0, CHR 0x9F, CHR 0x98, CHR 0xB2]),
     (''neutral'', [CHR 0xF0, CHR 0x9F, CHR 0x98, CHR 0x90])]"

definition neutral_face :: string where
  "neutral_face = [CHR 0xF0, CHR 0x9F, CHR 0x98, CHR 0x90]"

definition default_result :: sentiment where
  "default_result =
     \<lparr>polarity = ''neutral'', polarity_conf = 0.5, emotion = ''neutral'', emotion_conf = 0.5,
      subjectivity = ''objective'', emoji = neutral_face\<rparr>"

definition NEG_EMOTIONS :: "string list" where
  "NEG_EMOTIONS = [''anger'', ''fear'', ''sadness'']"

definition subj_words :: "string list" where
  "subj_words =
     [''feel'', ''love'', ''hate'', ''amazing'', ''terrible'', ''happy'', ''sad'', ''great'',
      ''awful'', ''wonderful'', ''horrible'', ''excited'', ''angry'', ''beautiful'', ''ugly'',
      ''best'', ''worst'', ''enjoy'', ''dislike'']"

text \<open>The arg-max class of a pipeline and its probability, rounded to three decimals:
  what \<open>analyse\<close> computes for the polarity and, in the same way, for the emotion.\<close>

definition top_class :: "(string \<Rightarrow> string \<Rightarrow> rat) \<Rightarrow> string list \<Rightarrow> string \<Rightarrow> string \<times> rat" where
  "top_class proba classes text =
     (let probs = map (proba text) classes; idx = argmax probs
      in (classes ! idx, py_round (probs ! idx) 3))"

text \<open>\<open>analyse\<close>. The confidences are floats rounded to three decimals; the product
  \<open>emo_conf * 0.85\<close> is the float product of the two floats, and \<open>max\<close> compares it
  with the float \<open>pol_conf\<close>.\<close>

definition analyse ::
  "str_methods \<Rightarrow> (string \<Rightarrow> string \<Rightarrow> rat) \<Rightarrow> (string \<Rightarrow> string \<Rightarrow> rat) \<Rightarrow> string
     \<Rightarrow> sentiment" where
  "analyse py pol_proba emo_proba text =
     (if text = [] \<or> str_strip py text = [] then default_result
      else
        let (polarity0, pol_conf0) = top_class pol_proba pol_classes text;
            (emotion, emo_conf) = top_class emo_proba emo_classes text;
            (polarity, pol_conf) =
              (if emotion \<in> set NEG_EMOTIONS \<and> polarity0 = ''neutral'' \<and> pol_conf0 < 0.70
               then (''negative'',
                     py_round (max (fl pol_conf0) (fl (fl emo_conf * fl 0.85))) 3)
               else (polarity0, pol_conf0));
            tokens = str_split py (str_lower py text);
            subjectivity =
              (if list_ex (\<lambda>t. t \<in> set subj_words) tokens then ''subjective''
               else ''objective'')
        in \<lparr>polarity = polarity, polarity_conf = pol_conf, emotion = emotion,
            emotion_conf = emo_conf, subjectivity = subjectivity,
            emoji = (case map_of EMOJI_MAP emotion of Some e \<Rightarrow> e | None \<Rightarrow> neutral_face)\<rparr>)"


section \<open>gemini_client.py: GeminiClient\<close>

datatype exn = ValueError string | BackendError string | AttributeError string

definition MAX_RETRIES :: nat where
  "MAX_RETRIES = 3"

definition RETRY_BACKOFF :: rat where
  "RETRY_BACKOFF = 1.5"

text \<open>The state of a client that the retry loop changes: the number of
  \<open>send_message\<close> calls made on the chat so far, the attempts whose failure was logged,
  and the lengths of the sleeps.\<close>

record client =
  calls :: nat
  warned :: "nat list"
  slept :: "rat list"

text \<open>\<open>GeminiClient.__init__\<close>: \<open>api_key\<close> is the module's \<open>API_KEY\<close>, and
  \<open>genai_setup\<close> is the exception of the library calls that build the model and the
  chat, if one of them raises.\<close>

definition new_client :: "string \<Rightarrow> exn option \<Rightarrow> exn + client" where
  "new_client api_key genai_setup =
     (if api_key = [] then Inl (ValueError ''GEMINI_API_KEY is not set.'')
      else case genai_setup of
             Some exc \<Rightarrow> Inl exc
           | None \<Rightarrow> Inr \<lparr>calls = 0, warned = [], slept = []\<rparr>)"

text \<open>The enriched prompt is kept as the values \<open>_build_enriched_prompt\<close> prints into
  it; the layout of the printed text is not modelled. The backend is a function from the
  number of earlier calls and the prompt to what \<open>send_message\<close> and \<open>response.text\<close>
  do on that call: raise, or give the text.\<close>

record prompt =
  prompt_user_text :: string
  prompt_intent :: string
  prompt_intent_conf :: rat
  prompt_entities :: entity_map
  prompt_sentiment :: "sentiment option"
  prompt_context_summary :: string

definition build_enriched_prompt ::
  "string \<Rightarrow> string \<Rightarrow> rat \<Rightarrow> entity_map \<Rightarrow> sentiment option \<Rightarrow> string \<Rightarrow> prompt" where
  "build_enriched_prompt user_text intent intent_conf entities sentiment context_summary =
     \<lparr>prompt_user_text = user_text, prompt_intent = intent, prompt_intent_conf = intent_conf,
      prompt_entities = entities, prompt_sentiment = sentiment,
      prompt_context_summary = context_summary\<rparr>"

definition post_process :: "str_methods \<Rightarrow> string \<Rightarrow> string" where
  "post_process py text =
     (if text = [] then ''*(empty response)*''
      else let lines = map (str_strip py) (str_splitlines py text);
               cleaned = join [CHR 0x0A] lines
           in str_strip py cleaned)"

definition INTENT_FALLBACKS :: "string pydict" where
  "INTENT_FALLBACKS =
    [(''greeting'', ''Hello! '' @ [CHR 0xF0, CHR 0x9F, CHR 0x91, CHR 0x8B] @ '' I'm DynamiChat. How can I help you today?''),
     (''farewell'', ''Goodbye! '' @ [CHR 0xF0, CHR 0x9F, CHR 0x91, CHR 0x8B] @ '' It was great chatting with you. Feel free to come back anytime!''),
     (''thanks'', ''You're welcome! '' @ [CHR 0xF0, CHR 0x9F, CHR 0x98, CHR 0x8A] @ '' Happy to help. Let me know if there's anything else.''),
     (''help'', ''I can chat, answer questions, analyse sentiment, tell jokes, and more. Just ask away!''),
     (''joke'', ''Why did the AI go to therapy? It had too many unresolved dependencies! '' @ [CHR 0xF0, CHR 0x9F, CHR 0x98, CHR 0x84]),
     (''weather'', ''I don't have live weather data, but you can check a weather service for the latest forecast!''),
     (''time_date'', ''I don't have direct access to your clock, but your device should show the current time.'')]"

definition sorry_prefix :: string where
  "sorry_prefix = ''I'm sorry you're having a tough time. ''"

definition rephrase_request :: string where
  "rephrase_request = ''I'm here to help! Could you rephrase your question so I can assist better?''"

text \<open>\<open>_fallback_response\<close>; a \<open>sentiment\<close> that is \<open>None\<close> or the empty dict is
  \<open>None\<close> here.\<close>

definition fallback_response :: "string \<Rightarrow> sentiment option \<Rightarrow> string" where
  "fallback_response intent sentiment =
     (let prefix = (case sentiment of
                      None \<Rightarrow> []
                    | Some s \<Rightarrow> if polarity s = ''negative'' then sorry_prefix else [])
      in prefix @ (case map_of INTENT_FALLBACKS intent of
                     Some canned \<Rightarrow> canned
                   | None \<Rightarrow> rephrase_request))"

text \<open>The retry loop of \<open>respond\<close> over the attempts that are left. The last equation
  is the \<open>return\<close> after the loop.\<close>

fun respond_loop ::
  "str_methods \<Rightarrow> (nat \<Rightarrow> prompt \<Rightarrow> exn + string) \<Rightarrow> prompt \<Rightarrow> string \<Rightarrow> sentiment option
     \<Rightarrow> nat list \<Rightarrow> client \<Rightarrow> string \<times> client" where
  "respond_loop py backend enriched intent sentiment (attempt # rest) c =
     (let c1 = c\<lparr>calls := calls c + 1\<rparr>
      in case backend (calls c) enriched of
           Inr text \<Rightarrow> (post_process py text, c1)
         | Inl exc \<Rightarrow>
             (let c2 = c1\<lparr>warned := warned c1 @ [attempt]\<rparr>
              in if attempt = MAX_RETRIES then (fallback_response intent sentiment, c2)
                 else respond_loop py backend enriched intent sentiment rest
                        (c2\<lparr>slept := slept c2 @ [RETRY_BACKOFF * of_nat attempt]\<rparr>)))"
| "respond_loop py backend enriched intent sentiment [] c =
     (fallback_response intent sentiment, c)"

definition respond ::
  "str_methods \<Rightarrow> (nat \<Rightarrow> prompt \<Rightarrow> exn + string) \<Rightarrow> client \<Rightarrow> string \<Rightarrow> string \<Rightarrow> rat
     \<Rightarrow> entity_map option \<Rightarrow> sentiment option \<Rightarrow> string \<Rightarrow> string \<times> client" where
  "respond py backend c user_text intent intent_conf entities sentiment context_summary =
     (let enriched = build_enriched_prompt user_text intent intent_conf (or_empty entities)
                       sentiment context_summary
      in respond_loop py backend enriched intent sentiment [1..<MAX_RETRIES + 1] c)"

section \<open>analytics_store.py: AnalyticsStore.record\<close>

record analytics_rec =
  rec_timestamp :: rat
  rec_user_text :: string
  rec_bot_text :: string
  rec_intent :: string
  rec_intent_conf :: rat
  rec_entities :: entity_map
  rec_sentiment_polarity :: string
  rec_sentiment_conf :: rat
  rec_emotion :: string
  rec_emotion_conf :: rat
  rec_response_time_ms :: rat

text \<open>\<open>self.records\<close> is the empty list, or what \<open>_load\<close> has read from the log file
  with \<open>json.load\<close>: a list, or another JSON value when the file holds one.\<close>

datatype analytics_store = Records "analytics_rec list" | NotAList

text \<open>\<open>record\<close> appends to \<open>self.records\<close> and calls \<open>_save\<close>, which writes the file
  and swallows every exception of the write; the file is not part of the model. The
  \<open>append\<close> raises when \<open>self.records\<close> is not a list.\<close>

definition analytics_record ::
  "analytics_store \<Rightarrow> rat \<Rightarrow> string \<Rightarrow> string \<Rightarrow> string \<Rightarrow> rat \<Rightarrow> entity_map \<Rightarrow> sentiment
     \<Rightarrow> rat \<Rightarrow> exn + analytics_store" where
  "analytics_record store now user_text bot_text intent intent_conf entities sentiment
       response_time_ms =
     (case store of
        NotAList \<Rightarrow> Inl (AttributeError ''append'')
      | Records records \<Rightarrow>
          Inr (Records (records @
            [\<lparr>rec_timestamp = now, rec_user_text = user_text, rec_bot_text = bot_text,
              rec_intent = intent, rec_intent_conf = intent_conf, rec_entities = entities,
              rec_sentiment_polarity = polarity sentiment,
              rec_sentiment_conf = polarity_conf sentiment,
              rec_emotion = emotion sentiment, rec_emotion_conf = emotion_conf sentiment,
              rec_response_time_ms = py_round response_time_ms 1\<rparr>])))"


section \<open>chatbot_core.py: ChatbotCore\<close>

record chat_response =
  resp_text :: string
  resp_intent :: string
  resp_intent_conf :: rat
  resp_multi_intents :: "(string \<times> rat) list"
  resp_entities :: entity_map
  resp_sentiment :: sentiment
  resp_source :: string
  resp_response_time_ms :: rat
  resp_context_summary :: string

text \<open>The state of the orchestrator that a turn reads and writes: the memory, the
  analytics records and the lazily built client (\<open>None\<close> until one is built).\<close>

record core =
  core_memory :: memory
  core_analytics :: analytics_store
  core_gemini :: "client option"

text \<open>What the world outside the orchestrator does during one turn: the string methods
  and the regular expression engine of the runtime, the fitted vectoriser and pipelines,
  the order in which numpy sorts equal similarities, the hash order of the runtime, the
  construction of the client, the backend, and the readings of the clocks in the order of
  the calls.\<close>

record world =
  w_str :: str_methods
  w_search :: "string \<Rightarrow> string \<Rightarrow> bool"
  w_findall :: "string \<Rightarrow> string \<Rightarrow> string list"
  w_sims :: "string \<Rightarrow> rat list option"
  w_tie :: "nat \<Rightarrow> nat"
  w_pol_proba :: "string \<Rightarrow> string \<Rightarrow> rat"
  w_emo_proba :: "string \<Rightarrow> string \<Rightarrow> rat"
  w_hash_rank :: "string \<Rightarrow> nat"
  w_api_key :: string
  w_genai_setup :: "exn option"
  w_send_message :: "nat \<Rightarrow> prompt \<Rightarrow> exn + string"
  w_perf_start :: rat
  w_time_user_turn :: rat
  w_time_model_turn :: rat
  w_perf_end :: rat
  w_time_record :: rat

definition hear_you_prefix :: string where
  "hear_you_prefix = ''I hear you '' @ [CHR 0xE2, CHR 0x80, CHR 0x93] @ '' sorry you're going through that. ''"

definition emergency_mapping :: "string pydict" where
  "emergency_mapping =
    [(''greeting'', ''Hey! '' @ [CHR 0xF0, CHR 0x9F, CHR 0x91, CHR 0x8B] @ '' I'm DynamiChat. How can I help?''),
     (''farewell'', ''Goodbye! '' @ [CHR 0xF0, CHR 0x9F, CHR 0x91, CHR 0x8B] @ '' See you next time!''),
     (''thanks'', ''You're welcome! '' @ [CHR 0xF0, CHR 0x9F, CHR 0x98, CHR 0x8A]),
     (''help'', ''I can answer questions, detect sentiment, extract entities and more. Try asking me something!''),
     (''joke'', ''Why did the scarecrow win an award? He was outstanding in his field! '' @ [CHR 0xF0, CHR 0x9F, CHR 0x8C, CHR 0xBE, CHR 0xF0, CHR 0x9F, CHR 0x98, CHR 0x84])]"

definition emergency_default :: string where
  "emergency_default = ''I'm here to help! Could you rephrase that for me? '' @ [CHR 0xF0, CHR 0x9F, CHR 0x98, CHR 0x8A]"

definition emergency_fallback :: "string \<Rightarrow> sentiment \<Rightarrow> string" where
  "emergency_fallback intent sentiment =
     (let prefix = (if polarity sentiment = ''negative'' then hear_you_prefix else [])
      in prefix @ (case map_of emergency_mapping intent of
                     Some canned \<Rightarrow> canned
                   | None \<Rightarrow> emergency_default))"

text \<open>\<open>_get_gemini\<close>: the client of the orchestrator, built on the first use. The
  constructor may raise; nothing is stored then.\<close>

definition get_gemini :: "world \<Rightarrow> core \<Rightarrow> exn + client" where
  "get_gemini w core =
     (case core_gemini core of
        Some c \<Rightarrow> Inr c
      | None \<Rightarrow> new_client (w_api_key w) (w_genai_setup w))"

text \<open>The body of the \<open>try\<close> in \<open>process_message\<close>: \<open>Inl\<close> is an exception that
  reaches the \<open>except\<close>.\<close>

definition ask_gemini ::
  "world \<Rightarrow> core \<Rightarrow> string \<Rightarrow> string \<Rightarrow> rat \<Rightarrow> entity_map \<Rightarrow> sentiment \<Rightarrow> string
     \<Rightarrow> exn + (string \<times> client)" where
  "ask_gemini w core user_text intent intent_conf entities sentiment ctx_summary =
     (case get_gemini w core of
        Inl exc \<Rightarrow> Inl exc
      | Inr gemini \<Rightarrow>
          Inr (respond (w_str w) (w_send_message w) gemini user_text intent intent_conf
                 (Some entities) (Some sentiment) ctx_summary))"

text \<open>\<open>process_message\<close>. The result is the state of the orchestrator after the call
  and what the call gives its caller: the envelope, or the exception that leaves the
  function (of \<open>analytics.record\<close>, the one step outside the \<open>try\<close> that can raise).
  The two readings of \<open>perf_counter\<close> are floats, and so are their difference and its
  product with 1000.\<close>

definition process_message ::
  "world \<Rightarrow> core \<Rightarrow> string \<Rightarrow> (exn + chat_response) \<times> core" where
  "process_message w core user_text =
     (let t0 = w_perf_start w;
          (intent, intent_conf) = predict (w_search w) (w_sims w) user_text;
          multi_intents = predict_multi (w_search w) (w_sims w) (w_tie w) user_text 3;
          entities = ner_extract (w_findall w) user_text;
          sentiment = analyse (w_str w) (w_pol_proba w) (w_emo_proba w) user_text;
          mem1 = add_turn (core_memory core) (w_time_user_turn w) ''user'' user_text
                   (Some intent) (Some entities);
          ctx_summary = get_summary (w_hash_rank w) mem1;
          (bot_text, source, gemini) =
            (case ask_gemini w core user_text intent intent_conf entities sentiment ctx_summary of
               Inr (reply, client') \<Rightarrow> (reply, ''gemini'', Some client')
             | Inl exc \<Rightarrow> (emergency_fallback intent sentiment, ''fallback'', core_gemini core));
          mem2 = add_turn mem1 (w_time_model_turn w) ''model'' bot_text None None;
          elapsed_ms = fl (fl (w_perf_end w - t0) * 1000)
      in case analytics_record (core_analytics core) (w_time_record w) user_text bot_text
                intent intent_conf entities sentiment elapsed_ms of
           Inl exc \<Rightarrow>
             (Inl exc,
              \<lparr>core_memory = mem2, core_analytics = core_analytics core, core_gemini = gemini\<rparr>)
         | Inr records \<Rightarrow>
             (Inr \<lparr>resp_text = bot_text, resp_intent = intent, resp_intent_conf = intent_conf,
                   resp_multi_intents = multi_intents, resp_entities = entities,
                   resp_sentiment = sentiment, resp_source = source,
                   resp_response_time_ms = py_round elapsed_ms 1,
                   resp_context_summary = ctx_summary\<rparr>,
              \<lparr>core_memory = mem2, core_analytics = records, core_gemini = gemini\<rparr>))"


section \<open>The specification's words\<close>

text \<open>The strings of a list of matches, each once, in the order of the first
  occurrences: the elements at the positions where the element does not occur earlier
  in the list.\<close>

definition first_occurrences :: "'a list \<Rightarrow> 'a list" where
  "first_occurrences xs =
     map (\<lambda>i. xs ! i) (filter (\<lambda>i. xs ! i \<notin> set (take i xs)) [0..<length xs])"

text \<open>The statistical mode as the specification words it: of the labels that occur most
  often, the one met first when the trail is scanned from its start.\<close>

definition mode_first_seen :: "string list \<Rightarrow> string" where
  "mode_first_seen history =
     (if history = [] then ''N/A''
      else hd (filter (\<lambda>l. \<forall>l' \<in> set history. count_list history l' \<le> count_list history l)
             history))"


section \<open>Sample worlds\<close>

text \<open>A regular expression engine for one text: in \<open>tell me a joke today\<close> the
  patterns of \<open>time_date\<close> (by \<open>today\<close>) and of \<open>joke\<close> match, and no other.\<close>

definition today_joke :: "string \<Rightarrow> string \<Rightarrow> bool" where
  "today_joke pat text =
     (text = ''tell me a joke today'' \<and>
      (pat = rx ''%b(time|date|day|today|tomorrow|yesterday|clock|what%s*time)%b'' \<or>
       pat = rx ''%b(joke|funny|laugh|humor|amuse|entertain)%b''))"


text \<open>A \<open>findall\<close> that finds three e-mail addresses, one of them twice, and nothing
  for the other patterns.\<close>

definition two_mails :: "string \<Rightarrow> string \<Rightarrow> string list" where
  "two_mails pat text =
     (if pat = rx ''[a-zA-Z0-9_.+-]+@[a-zA-Z0-9-]+%.[a-zA-Z0-9-.]+''
      then [''a@b.com'', ''c@d.org'', ''a@b.com''] else [])"

text \<open>A hash order of the runtime that iterates \<open>joke\<close> before every other label.\<close>

definition joke_first :: "string \<Rightarrow> nat" where
  "joke_first l = (if l = ''joke'' then 0 else 1)"


text \<open>Two pipelines for one text: the polarity pipeline leans to \<open>neutral\<close> with a
  probability that rounds to 0.381, the emotion pipeline to \<open>sadness\<close> with one that
  rounds to 0.47.\<close>

definition leaning_neutral :: "string \<Rightarrow> string \<Rightarrow> rat" where
  "leaning_neutral text cls =
     (if cls = ''neutral'' then 0.3812 else if cls = ''negative'' then 0.3311 else 0.2877)"

definition mostly_sad :: "string \<Rightarrow> string \<Rightarrow> rat" where
  "mostly_sad text cls = (if cls = ''sadness'' then 0.4704 else 0.10592)"

text \<open>The methods of \<open>str\<close> on ASCII text: the white space of \<open>str.isspace\<close> is the
  characters 9 to 13 and 28 to 32; a line ends at \<open>\n\<close>, \<open>\r\<close>, \<open>\r\n\<close>, \<open>\v\<close>,
  \<open>\f\<close> and the separators \<open>0x1C\<close> to \<open>0x1E\<close>; the capital letters are \<open>A\<close> to
  \<open>Z\<close>.\<close>

definition ascii_space :: "char \<Rightarrow> bool" where
  "ascii_space c = (let n = (of_char c :: nat) in (9 \<le> n \<and> n \<le> 13) \<or> (28 \<le> n \<and> n \<le> 32))"

definition ascii_strip :: "string \<Rightarrow> string" where
  "ascii_strip s = rev (dropWhile ascii_space (rev (dropWhile ascii_space s)))"

definition ascii_lower :: "string \<Rightarrow> string" where
  "ascii_lower s =
     map (\<lambda>c. let n = (of_char c :: nat) in if 65 \<le> n \<and> n \<le> 90 then char_of (n + 32) else c) s"

fun ascii_split_from :: "string \<Rightarrow> string \<Rightarrow> string list" where
  "ascii_split_from cur [] = (if cur = [] then [] else [cur])"
| "ascii_split_from cur (c # cs) =
     (if ascii_space c
      then (if cur = [] then ascii_split_from [] cs else cur # ascii_split_from [] cs)
      else ascii_split_from (cur @ [c]) cs)"

definition ascii_linebreak :: "char \<Rightarrow> bool" where
  "ascii_linebreak c =
     (let n = (of_char c :: nat) in (10 \<le> n \<and> n \<le> 13) \<or> (28 \<le> n \<and> n \<le> 30))"

fun ascii_splitlines_from :: "string \<Rightarrow> string \<Rightarrow> string list" where
  "ascii_splitlines_from cur [] = (if cur = [] then [] else [cur])"
| "ascii_splitlines_from cur [c] = (if ascii_linebreak c then [cur] else [cur @ [c]])"
| "ascii_splitlines_from cur (c # d # cs) =
     (if c = CHR 0x0D \<and> d = CHR 0x0A then cur # ascii_splitlines_from [] cs
      else if ascii_linebreak c then cur # ascii_splitlines_from [] (d # cs)
      else ascii_splitlines_from (cur @ [c]) (d # cs))"

definition ascii_methods :: str_methods where
  "ascii_methods =
     \<lparr>str_strip = ascii_strip, str_lower = ascii_lower, str_split = ascii_split_from [],
      str_splitlines = ascii_splitlines_from []\<rparr>"


text \<open>A backend that raises on every call, and one that raises on every call but the
  second.\<close>

definition backend_down :: "nat \<Rightarrow> prompt \<Rightarrow> exn + string" where
  "backend_down k p = Inl (BackendError ''503 Service Unavailable'')"

definition backend_flaky :: "nat \<Rightarrow> prompt \<Rightarrow> exn + string" where
  "backend_flaky k p =
     (if k = 1 then Inr (''  Hi there!  '' @ [CHR 0x0A] @ '' How are you? '' @ [CHR 0x0A])
      else Inl (BackendError ''429 Too Many Requests''))"

definition sad_sentiment :: sentiment where
  "sad_sentiment =
     \<lparr>polarity = ''negative'', polarity_conf = 0.8, emotion = ''sadness'', emotion_conf = 0.7,
      subjectivity = ''subjective'', emoji = [CHR 0xF0, CHR 0x9F, CHR 0x98, CHR 0xA2]\<rparr>"


text \<open>A turn in a world without an API key: the constructor of the client raises. The
  same world with a key and a backend that answers the second attempt, and with a key and
  a backend that is down.\<close>

definition world_no_key :: world where
  "world_no_key =
     \<lparr>w_str = ascii_methods, w_search = today_joke, w_findall = two_mails,
      w_sims = (\<lambda>t. None), w_tie = (\<lambda>i. i),
      w_pol_proba = leaning_neutral, w_emo_proba = mostly_sad, w_hash_rank = joke_first,
      w_api_key = [], w_genai_setup = None, w_send_message = backend_down,
      w_perf_start = 10, w_time_user_turn = 100, w_time_model_turn = 101,
      w_perf_end = 10.25, w_time_record = 102\<rparr>"

definition world_flaky :: world where
  "world_flaky = world_no_key\<lparr>w_api_key := ''key'', w_send_message := backend_flaky\<rparr>"

definition world_down :: world where
  "world_down = world_no_key\<lparr>w_api_key := ''key''\<rparr>"

definition new_core :: core where
  "new_core = \<lparr>core_memory = new_memory 20, core_analytics = Records [], core_gemini = None\<rparr>"


definition row_lot_of_morning :: "rat list" where
  "row_lot_of_morning = [0.4, 0, 0.22360679774997896, 0, 0, 0, 0, 0, 0, 0]"



section \<open>Properties of the Python values\<close>


lemma round_half_even_of_int [simp]: "round_half_even (of_int k) = k"
  by (simp add: round_half_even_def Let_def)

lemma round_half_even_lower: "y - 1 / 2 \<le> of_int (round_half_even y)"
  unfolding round_half_even_def Let_def by (auto; linarith)

lemma round_half_even_upper: "of_int (round_half_even y) \<le> y + 1 / 2"
  unfolding round_half_even_def Let_def by (auto; linarith)

lemma round_half_even_bounds:
  "of_int \<lfloor>y\<rfloor> \<le> (of_int (round_half_even y) :: rat)" "round_half_even y \<le> \<lfloor>y\<rfloor> + 1"
  unfolding round_half_even_def Let_def by auto

lemma round_half_even_mono:
  assumes "x \<le> y"
  shows "round_half_even x \<le> round_half_even y"
proof (cases "\<lfloor>x\<rfloor> = \<lfloor>y\<rfloor>")
  case True
  then show ?thesis
    using assms unfolding round_half_even_def Let_def by (auto; linarith)
next
  case False
  with assms have "\<lfloor>x\<rfloor> < \<lfloor>y\<rfloor>" using floor_mono [of x y] by linarith
  then have "round_half_even x \<le> \<lfloor>y\<rfloor>" using round_half_even_bounds(2) [of x] by linarith
  also have "\<dots> \<le> round_half_even y" using round_half_even_bounds(1) [of y] by simp
  finally show ?thesis .
qed

lemma py_round_mono: "x \<le> y \<Longrightarrow> py_round x n \<le> py_round y n"
  by (simp add: py_round_def divide_right_mono mult_right_mono round_half_even_mono)

lemma py_round_multiple: "py_round (of_int k / 10 ^ n) n = of_int k / 10 ^ n"
  by (simp add: py_round_def)

lemma py_round_idem: "py_round (py_round x n) n = py_round x n"
  unfolding py_round_def [of x] by (rule py_round_multiple)



lemma argmax_from_props:
  "best_i < i \<Longrightarrow>
   (let r = argmax_from xs i best_i best in
      (r = best_i \<or> (i \<le> r \<and> r < i + length xs)) \<and>
      (\<forall>x \<in> set xs. x \<le> (if r = best_i then best else xs ! (r - i))) \<and>
      best \<le> (if r = best_i then best else xs ! (r - i)))"
proof (induction xs arbitrary: i best_i best)
  case Nil
  then show ?case by simp
next
  case (Cons x xs)
  show ?case
  proof (cases "best < x")
    case True
    have lt: "i < Suc i" by simp
    from Cons.IH [OF lt, of x] True Cons.prems show ?thesis
      by (auto simp add: Let_def Suc_diff_le nth_Cons' split: if_splits)
  next
    case False
    from Cons.prems have lt: "best_i < Suc i" by simp
    from Cons.IH [OF lt, of best] False Cons.prems show ?thesis
      by (auto simp add: Let_def Suc_diff_le nth_Cons' split: if_splits)
  qed
qed

lemma argmax_props:
  assumes "xs \<noteq> []"
  shows "argmax xs < length xs" and "\<forall>x \<in> set xs. x \<le> xs ! argmax xs"
proof -
  obtain y ys where xs: "xs = y # ys" using assms by (cases xs) auto
  have "0 < (1::nat)" by simp
  from argmax_from_props [OF this, of ys y]
  show "argmax xs < length xs" and "\<forall>x \<in> set xs. x \<le> xs ! argmax xs"
    by (auto simp add: argmax_def xs Let_def nth_Cons' split: if_splits)
qed



lemma set_fromkeys_acc: "set (fromkeys_acc seen xs) = set seen \<union> set xs"
  by (induction xs arbitrary: seen) auto

lemma distinct_fromkeys_acc: "distinct seen \<Longrightarrow> distinct (fromkeys_acc seen xs)"
  by (induction xs arbitrary: seen) auto

lemma fromkeys_acc_append:
  "fromkeys_acc seen (xs @ ys) = fromkeys_acc (fromkeys_acc seen xs) ys"
  by (induction xs arbitrary: seen) auto

lemma upt_0_Suc: "[0..<Suc n] = 0 # map Suc [0..<n]"
  by (simp add: upt_conv_Cons map_Suc_upt del: upt_Suc)

lemma nth_filter_Cons:
  "map (\<lambda>i. (x # xs) ! i) (filter Q [0..<Suc (length xs)]) =
     (if Q 0 then [x] else []) @ map (\<lambda>i. xs ! i) (filter (\<lambda>i. Q (Suc i)) [0..<length xs])"
  by (simp add: upt_0_Suc filter_map o_def del: upt_Suc)

lemma fromkeys_acc_filter:
  "fromkeys_acc seen xs =
     seen @ map (\<lambda>i. xs ! i) (filter (\<lambda>i. xs ! i \<notin> set seen \<union> set (take i xs)) [0..<length xs])"
proof (induction xs arbitrary: seen)
  case Nil
  then show ?case by simp
next
  case (Cons x xs)
  let ?Q = "\<lambda>i. (x # xs) ! i \<notin> set seen \<union> set (take i (x # xs))"
  have unfold: "map (\<lambda>i. (x # xs) ! i) (filter ?Q [0..<length (x # xs)]) =
      (if x \<in> set seen then [] else [x]) @
      map (\<lambda>i. xs ! i) (filter (\<lambda>i. ?Q (Suc i)) [0..<length xs])"
    unfolding length_Cons nth_filter_Cons by simp
  show ?case
  proof (cases "x \<in> set seen")
    case True
    have "filter (\<lambda>i. ?Q (Suc i)) [0..<length xs] =
          filter (\<lambda>i. xs ! i \<notin> set seen \<union> set (take i xs)) [0..<length xs]"
      by (rule filter_cong) (use True in auto)
    then show ?thesis
      using True Cons.IH [of seen] unfolding unfold by simp
  next
    case False
    have "filter (\<lambda>i. ?Q (Suc i)) [0..<length xs] =
          filter (\<lambda>i. xs ! i \<notin> set (seen @ [x]) \<union> set (take i xs)) [0..<length xs]"
      by (rule filter_cong) auto
    then show ?thesis
      using False Cons.IH [of "seen @ [x]"] unfolding unfold by simp
  qed
qed

lemma fromkeys_first_occurrences: "fromkeys xs = first_occurrences xs"
  using fromkeys_acc_filter [of "[]" xs] by (simp add: fromkeys_def first_occurrences_def)

lemma set_fromkeys: "set (fromkeys xs) = set xs"
  by (simp add: fromkeys_def set_fromkeys_acc)

lemma distinct_fromkeys: "distinct (fromkeys xs)"
  by (simp add: fromkeys_def distinct_fromkeys_acc)

lemma round_half_even_close: "\<bar>of_int (round_half_even y) - y\<bar> \<le> 1 / 2"
  using round_half_even_lower [of y] round_half_even_upper [of y] by linarith

lemma round_half_even_near:
  assumes "\<bar>y - of_int k\<bar> < 1 / 2"
  shows "round_half_even y = k"
proof -
  have "\<bar>(of_int (round_half_even y) :: rat) - of_int k\<bar> < 1"
    using round_half_even_close [of y] assms by linarith
  then have "\<bar>(of_int (round_half_even y - k) :: rat)\<bar> < of_int 1" by simp
  then have "\<bar>round_half_even y - k\<bar> < 1"
    unfolding of_int_abs [symmetric] of_int_less_iff .
  then show ?thesis by simp
qed

lemma binary_exponent_lower:
  assumes "0 < x"
  shows "2 powi (binary_exponent x) \<le> x"
proof -
  obtain p q where pq: "quotient_of x = (p, q)" by (cases "quotient_of x")
  then have q: "0 < q" and x: "x = of_int p / of_int q"
    using quotient_of_denom_pos [OF pq] quotient_of_div [OF pq] by simp_all
  from assms q x have p: "0 < p" by (simp add: zero_less_divide_iff)
  let ?d = "bitlen p - bitlen q"
  show ?thesis
  proof (cases "2 powi ?d \<le> x")
    case True
    then show ?thesis by (simp add: binary_exponent_def pq)
  next
    case False
    have bp: "(2::int) ^ nat (bitlen p - 1) \<le> p" using bitlen_bounds [OF p] by simp
    have bq: "q < (2::int) ^ nat (bitlen q)" using bitlen_bounds [OF q] by simp
    have p1: "1 \<le> bitlen p" using p by (simp add: bitlen_def floorlog_def)
    have q1: "0 \<le> bitlen q" by (rule bitlen_nonneg)
    have "(2::rat) powi (?d - 1) = 2 powi (bitlen p - 1) / 2 powi (bitlen q)"
      using power_int_diff [of "2::rat" "bitlen p - 1" "bitlen q"] by (simp add: algebra_simps)
    also have "\<dots> = 2 ^ nat (bitlen p - 1) / 2 ^ nat (bitlen q)"
      using p1 q1 by (simp add: power_int_def)
    also have "\<dots> \<le> of_int p / 2 ^ nat (bitlen q)"
    proof -
      have "(2::rat) ^ nat (bitlen p - 1) \<le> of_int p"
        using bp by (metis of_int_le_iff of_int_numeral of_int_power)
      then show ?thesis by (simp add: divide_right_mono)
    qed
    also have "\<dots> \<le> of_int p / of_int q"
    proof -
      have "(of_int q :: rat) \<le> 2 ^ nat (bitlen q)"
        using bq by (metis less_imp_le of_int_le_iff of_int_numeral of_int_power)
      moreover have "(0::rat) < of_int q" using q by simp
      moreover have "(0::rat) \<le> of_int p" using p by simp
      ultimately show ?thesis by (simp add: divide_left_mono)
    qed
    also have "\<dots> = x" by (simp add: x)
    finally have main: "2 powi (?d - 1) \<le> x" .
    have e: "binary_exponent x = ?d - 1"
      using False by (simp add: binary_exponent_def pq)
    show ?thesis unfolding e by (rule main)
  qed
qed

lemma binary_exponent_small:
  assumes "0 < x" and "x < 2"
  shows "binary_exponent x \<le> 0"
proof (rule ccontr)
  assume "\<not> binary_exponent x \<le> 0"
  then have "1 \<le> binary_exponent x" by simp
  then have "(2::rat) powi 1 \<le> 2 powi (binary_exponent x)"
    by (intro power_int_increasing) simp_all
  with binary_exponent_lower [OF assms(1)] assms(2) show False by simp
qed

lemma fl_error:
  assumes "0 \<le> x" and "x < 2"
  shows "\<bar>fl x - x\<bar> \<le> 1 / 2 ^ 53"
proof (cases "x = 0")
  case True
  then show ?thesis by (simp add: fl_def)
next
  case False
  with assms have pos: "0 < x" by simp
  define u :: rat where "u = 2 powi (max (binary_exponent \<bar>x\<bar>) (- 1022) - 52)"
  have upos: "0 < u" by (simp add: u_def)
  have "max (binary_exponent \<bar>x\<bar>) (- 1022) - 52 \<le> - 52"
    using binary_exponent_small [of x] pos assms by simp
  then have "u \<le> 2 powi (- 52)"
    unfolding u_def by (intro power_int_increasing) simp_all
  then have u52: "u \<le> 1 / 2 ^ 52" by (simp add: power_int_def field_simps)
  have f: "fl x = of_int (round_half_even (x / u)) * u"
    using pos by (simp add: fl_def u_def Let_def)
  have "fl x - x = (of_int (round_half_even (x / u)) - x / u) * u"
    using upos by (simp add: f left_diff_distrib)
  then have "\<bar>fl x - x\<bar> = \<bar>of_int (round_half_even (x / u)) - x / u\<bar> * u"
    using upos by (simp add: abs_mult abs_of_pos)
  also have "\<dots> \<le> 1 / 2 * u"
    using round_half_even_close [of "x / u"] upos by (intro mult_right_mono) simp_all
  also have "\<dots> \<le> 1 / 2 * (1 / 2 ^ 52)" using u52 by simp
  finally show ?thesis by simp
qed

lemma fl_nonneg:
  assumes "0 \<le> x"
  shows "0 \<le> fl x"
proof (cases "x = 0")
  case True
  then show ?thesis by (simp add: fl_def)
next
  case False
  with assms have pos: "0 < x" by simp
  define u :: rat where "u = 2 powi (max (binary_exponent \<bar>x\<bar>) (- 1022) - 52)"
  have upos: "0 < u" by (simp add: u_def)
  have "round_half_even 0 \<le> round_half_even (x / u)"
    using pos upos by (intro round_half_even_mono) simp
  then have "0 \<le> round_half_even (x / u)"
    using round_half_even_of_int [of 0] by simp
  moreover have "fl x = of_int (round_half_even (x / u)) * u"
    using pos by (simp add: fl_def u_def Let_def)
  ultimately show ?thesis using upos by simp
qed

text \<open>The float product of a probability and the literal \<open>0.85\<close> is within three
  roundings of the exact product.\<close>

lemma fl_product_error:
  assumes "0 \<le> a" and "a \<le> 1"
  shows "\<bar>fl (fl a * fl 0.85) - a * 0.85\<bar> \<le> 3 / 2 ^ 53"
proof -
  define e :: rat where "e = 1 / 2 ^ 53"
  have e: "0 < e" "e \<le> 1 / 100" by (simp_all add: e_def)
  have ea: "\<bar>fl a - a\<bar> \<le> e" unfolding e_def using assms by (intro fl_error) simp_all
  have eb: "\<bar>fl 0.85 - 17 / 20\<bar> \<le> e" using fl_error [of "0.85"] by (simp add: e_def)
  have a0: "0 \<le> fl a" using assms(1) by (rule fl_nonneg)
  have b0: "0 \<le> fl 0.85" by (rule fl_nonneg) simp
  have b1: "fl 0.85 \<le> 9 / 10" using eb e by linarith
  have a1: "fl a \<le> 101 / 100" using ea e assms by linarith
  have p0: "0 \<le> fl a * fl 0.85" using a0 b0 by simp
  have "fl a * fl 0.85 \<le> (101 / 100) * (9 / 10)"
    using a0 b0 a1 b1 by (intro mult_mono) simp_all
  then have p2: "fl a * fl 0.85 < 2" by simp
  have ep: "\<bar>fl (fl a * fl 0.85) - fl a * fl 0.85\<bar> \<le> e"
    unfolding e_def using p0 p2 by (rule fl_error)
  have "fl a * fl 0.85 - a * (17 / 20) = (fl a - a) * fl 0.85 + a * (fl 0.85 - 17 / 20)"
    by (simp add: algebra_simps)
  then have "\<bar>fl a * fl 0.85 - a * (17 / 20)\<bar>
      \<le> \<bar>fl a - a\<bar> * \<bar>fl 0.85\<bar> + \<bar>a\<bar> * \<bar>fl 0.85 - 17 / 20\<bar>"
    using abs_triangle_ineq [of "(fl a - a) * fl 0.85" "a * (fl 0.85 - 17 / 20)"]
    by (simp add: abs_mult)
  also have "\<dots> \<le> e * 1 + 1 * e"
    using ea eb a0 b0 b1 assms by (intro add_mono mult_mono) simp_all
  finally have "\<bar>fl a * fl 0.85 - a * (17 / 20)\<bar> \<le> 2 * e" by simp
  with ep have "\<bar>fl (fl a * fl 0.85) - a * (17 / 20)\<bar> \<le> 3 * e" by linarith
  then show ?thesis by (simp add: e_def)
qed

text \<open>A decimal with three digits, between 0 and 2, read as a float and rounded to three
  decimals is the decimal again.\<close>

lemma py_round_fl_decimal:
  assumes "0 \<le> k" and "k < 2000"
  shows "py_round (fl (of_int k / 1000)) 3 = of_int k / 1000"
proof -
  let ?c = "of_int k / 1000 :: rat"
  have err: "\<bar>fl ?c - ?c\<bar> \<le> 1 / 2 ^ 53" using assms by (intro fl_error) simp_all
  have eq: "fl ?c * 1000 - of_int k = (fl ?c - ?c) * 1000" by (simp add: left_diff_distrib)
  have "\<bar>fl ?c * 1000 - of_int k\<bar> = \<bar>fl ?c - ?c\<bar> * \<bar>1000\<bar>"
    unfolding eq by (rule abs_mult)
  also have "\<dots> \<le> 1 / 2 ^ 53 * \<bar>1000\<bar>" using err by (intro mult_right_mono) simp_all
  also have "\<dots> < 1 / 2" by simp
  finally have "\<bar>fl ?c * 1000 - of_int k\<bar> < 1 / 2" .
  then have "round_half_even (fl ?c * 1000) = k" by (rule round_half_even_near)
  then show ?thesis by (simp add: py_round_def)
qed
section \<open>Properties of ContextMemory\<close>

lemma length_deque_append:
  "length q \<le> maxlen \<Longrightarrow> length (deque_append maxlen q x) \<le> maxlen"
  by (simp add: deque_append_def Let_def)

lemma turns_add_turn:
  "turns (add_turn m now role txt intent entities) =
     deque_append (window m) (turns m) (make_turn now role txt intent entities)"
  by (simp add: add_turn_def)

lemma window_call_memory: "window (call_memory m c) = window m"
  by (cases c) (simp_all add: add_turn_def clear_def)

lemma window_foldl_call: "window (foldl call_memory m cs) = window m"
  by (induction cs arbitrary: m) (simp_all add: window_call_memory)

lemma bounded_call_memory:
  "length (turns m) \<le> window m \<Longrightarrow> length (turns (call_memory m c)) \<le> window m"
  by (cases c) (simp_all add: turns_add_turn length_deque_append clear_def)

lemma bounded_foldl_call:
  "length (turns m) \<le> window m \<Longrightarrow> length (turns (foldl call_memory m cs)) \<le> window m"
proof (induction cs arbitrary: m)
  case Nil
  then show ?case by simp
next
  case (Cons c cs)
  have "length (turns (call_memory m c)) \<le> window (call_memory m c)"
    using Cons.prems by (simp add: bounded_call_memory window_call_memory)
  from Cons.IH [OF this] show ?case
    by (simp add: window_call_memory)
qed

text \<open>After any run of \<open>add_turn\<close> calls on a queue that holds the last \<open>w\<close> turns of
  what went in before, the queue holds the last \<open>w\<close> turns of everything that went in.\<close>

lemma deque_append_last:
  "deque_append w (drop (length xs - w) xs) x = drop (length (xs @ [x]) - w) (xs @ [x])"
proof (cases "length xs < w")
  case True
  then show ?thesis by (simp add: deque_append_def Let_def)
next
  case False
  then have le: "w \<le> length xs" by simp
  define n where "n = length xs - w"
  have n: "n \<le> length xs" "length xs - n = w" "Suc (length xs) - w = Suc n"
    using le by (simp_all add: n_def)
  have "tl (drop n xs @ [x]) = drop (Suc n) (xs @ [x])"
  proof (cases "n < length xs")
    case True
    then have "drop n xs \<noteq> []" by simp
    then have "tl (drop n xs @ [x]) = tl (drop n xs) @ [x]" by simp
    also have "\<dots> = drop (Suc n) xs @ [x]" by (simp add: drop_Suc tl_drop)
    finally show ?thesis using True by simp
  next
    case False
    with n(1) have "n = length xs" by simp
    then show ?thesis by simp
  qed
  then show ?thesis
    using n le by (simp add: deque_append_def Let_def n_def [symmetric])
qed

lemma turns_after_adds:
  "\<forall>c \<in> set cs. is_add c \<Longrightarrow> turns m = drop (length pre - window m) pre \<Longrightarrow>
   turns (foldl call_memory m cs) =
     drop (length (pre @ map turn_of cs) - window m) (pre @ map turn_of cs)"
proof (induction cs arbitrary: m pre)
  case Nil
  then show ?case by simp
next
  case (Cons c cs)
  from Cons.prems(1) obtain now role body intent entities
    where c: "c = AddTurn now role body intent entities"
    by (cases c) auto
  let ?m = "call_memory m c"
  have "turns ?m = drop (length (pre @ [turn_of c]) - window ?m) (pre @ [turn_of c])"
    using deque_append_last [of "window m" pre "turn_of c"] Cons.prems(2)
    by (simp add: c turns_add_turn window_call_memory add_turn_def)
  moreover have "\<forall>c \<in> set cs. is_add c" using Cons.prems(1) by simp
  ultimately have
    "turns (foldl call_memory ?m cs) =
       drop (length ((pre @ [turn_of c]) @ map turn_of cs) - window ?m)
         ((pre @ [turn_of c]) @ map turn_of cs)"
    by (rule Cons.IH [rotated])
  then show ?case by (simp add: window_call_memory)
qed


text \<open>
  Claim C7. A memory with window \<open>W\<close> never holds more than \<open>W\<close> turns, whatever
  calls are made on it. After \<open>W + 1\<close> calls of \<open>add_turn\<close> on a new memory the queue
  holds the turns of all calls but the first, in the order of the calls: the turn of the
  first call has left (it is no member of the queue when the turns differ from each
  other), and the turn of the second call is the oldest one in the queue. (With
  \<open>W = 0\<close> there is one call and no second turn; the queue is then empty.)
\<close>

theorem memory_window_fifo:
  assumes adds: "\<forall>c \<in> set adds. is_add c" and len: "length adds = W + 1"
  shows "length (turns (foldl call_memory (new_memory W) cs)) \<le> W
       \<and> turns (foldl call_memory (new_memory W) adds) = tl (map turn_of adds)
       \<and> (distinct (map turn_of adds) \<longrightarrow>
            turn_of (hd adds) \<notin> set (turns (foldl call_memory (new_memory W) adds)))
       \<and> (0 < W \<longrightarrow> hd (turns (foldl call_memory (new_memory W) adds)) = turn_of (adds ! 1))"
proof -
  let ?m = "new_memory W"
  have w: "window ?m = W" and t: "turns ?m = []"
    by (simp_all add: new_memory_def)
  have bound: "length (turns (foldl call_memory ?m cs)) \<le> W"
    using bounded_foldl_call [of ?m cs] by (simp add: w t)
  have "turns (foldl call_memory ?m adds) =
          drop (length ([] @ map turn_of adds) - window ?m) ([] @ map turn_of adds)"
    using adds by (rule turns_after_adds) (simp add: t)
  then have queue: "turns (foldl call_memory ?m adds) = tl (map turn_of adds)"
    using len by (simp add: w drop_Suc)
  obtain a rest where ar: "adds = a # rest"
    using len by (cases adds) auto
  have gone: "distinct (map turn_of adds) \<longrightarrow> turn_of (hd adds) \<notin> set (tl (map turn_of adds))"
    by (auto simp add: ar)
  have oldest: "0 < W \<longrightarrow> hd (tl (map turn_of adds)) = turn_of (adds ! 1)"
  proof
    assume "0 < W"
    with len ar obtain b rest' where "rest = b # rest'"
      by (cases rest) auto
    with ar show "hd (tl (map turn_of adds)) = turn_of (adds ! 1)" by simp
  qed
  from bound queue gone oldest show ?thesis by simp
qed

text \<open>A window of two turns and three calls: the first turn is gone, the second is the
  oldest of the two that stay.\<close>

theorem memory_window_fifo_witness:
  "turns (foldl call_memory (new_memory 2)
      [AddTurn 1 ''user'' ''hi'' (Some ''greeting'') None,
       AddTurn 2 ''model'' ''Hello!'' None None,
       AddTurn 3 ''user'' ''bye'' (Some ''farewell'') None])
   = [make_turn 2 ''model'' ''Hello!'' None None,
      make_turn 3 ''user'' ''bye'' (Some ''farewell'') None]
   \<and> make_turn 1 ''user'' ''hi'' (Some ''greeting'') None \<notin>
       set (turns (foldl call_memory (new_memory 2)
         [AddTurn 1 ''user'' ''hi'' (Some ''greeting'') None,
          AddTurn 2 ''model'' ''Hello!'' None None,
          AddTurn 3 ''user'' ''bye'' (Some ''farewell'') None]))
   \<and> length (turns (foldl call_memory (new_memory 2)
         [AddTurn 1 ''user'' ''a'' None None, Clear, AddTurn 2 ''user'' ''b'' None None,
          AddTurn 3 ''user'' ''c'' None None, AddTurn 4 ''user'' ''d'' None None])) \<le> 2"
  using memory_window_fifo [of
      "[AddTurn 1 ''user'' ''hi'' (Some ''greeting'') None,
        AddTurn 2 ''model'' ''Hello!'' None None,
        AddTurn 3 ''user'' ''bye'' (Some ''farewell'') None]" 2
      "[AddTurn 1 ''user'' ''a'' None None, Clear, AddTurn 2 ''user'' ''b'' None None,
        AddTurn 3 ''user'' ''c'' None None, AddTurn 4 ''user'' ''d'' None None]"]
  by (simp add: make_turn_def)


section \<open>Properties of IntentRecogniser.predict\<close>


lemma general_no_patterns:
  "\<forall>(l, ps) \<in> set INTENT_PATTERNS. l = ''general'' \<longrightarrow> ps = []"
  by (simp add: INTENT_PATTERNS_def)

lemma regex_stage_first:
  "\<forall>e \<in> set before. \<not> list_ex (\<lambda>p. re_search p text) (snd e) \<Longrightarrow>
   list_ex (\<lambda>p. re_search p text) ps \<Longrightarrow> l \<noteq> ''general'' \<Longrightarrow>
   regex_stage re_search (before @ (l, ps) # after) text = Some (l, 0.95)"
  by (induction before) auto

lemma regex_stage_Some:
  "regex_stage re_search cat text = Some (l, c) \<Longrightarrow>
     l \<noteq> ''general'' \<and> c = 0.95 \<and> (\<exists>ps. (l, ps) \<in> set cat \<and> list_ex (\<lambda>p. re_search p text) ps)"
  by (induction cat) (auto split: if_splits)


lemma general_not_corpus: "''general'' \<notin> set corpus_labels"
  by (simp add: corpus_labels_def TFIDF_CORPUS_def)

lemma tfidf_stage_Some:
  "tfidf_stage so = Some (l, c) \<Longrightarrow> l \<in> set corpus_labels"
  by (auto simp add: tfidf_stage_def Let_def split: option.splits if_splits)

text \<open>
  Claim C4. When some pattern of a catalogue entry matches the text, \<open>predict\<close> returns
  the label of the first entry of the catalogue, in its order, one of whose patterns
  matches, with confidence 0.95, whatever the statistical stage would give
  (\<open>tfidf_sims\<close> is arbitrary). When the entries that match all carry one label, that
  label is returned.
\<close>

theorem predict_first_match:
  assumes "(label, pats) \<in> set INTENT_PATTERNS" and "pat \<in> set pats" and "re_search pat text"
  shows "\<exists>before l ps after.
           INTENT_PATTERNS = before @ (l, ps) # after
         \<and> (\<forall>e \<in> set before. \<forall>p \<in> set (snd e). \<not> re_search p text)
         \<and> (\<exists>p \<in> set ps. re_search p text)
         \<and> predict re_search tfidf_sims text = (l, 0.95)
         \<and> ((\<forall>e \<in> set INTENT_PATTERNS. (\<exists>p \<in> set (snd e). re_search p text) \<longrightarrow> fst e = label)
              \<longrightarrow> l = label)"
proof -
  let ?P = "\<lambda>e. list_ex (\<lambda>p. re_search p text) (snd e)"
  have "\<exists>e \<in> set INTENT_PATTERNS. ?P e"
    using assms by (auto simp add: list_ex_iff intro!: bexI [of _ "(label, pats)"])
  from split_list_first_prop [OF this] obtain before e after
    where split: "INTENT_PATTERNS = before @ e # after" and hit: "?P e"
      and first: "\<forall>y \<in> set before. \<not> ?P y"
    by blast
  obtain l ps where e: "e = (l, ps)" by (cases e)
  have mem: "e \<in> set INTENT_PATTERNS" unfolding split by simp
  with general_no_patterns hit e have "l \<noteq> ''general''" by fastforce
  with first hit e have "regex_stage re_search (before @ (l, ps) # after) text = Some (l, 0.95)"
    by (intro regex_stage_first) simp_all
  then have "predict re_search tfidf_sims text = (l, 0.95)"
    unfolding predict_def split e by simp
  moreover have "(\<forall>e \<in> set INTENT_PATTERNS. (\<exists>p \<in> set (snd e). re_search p text) \<longrightarrow> fst e = label)
      \<longrightarrow> l = label"
    using mem hit e by (auto simp add: list_ex_iff)
  ultimately show ?thesis
    using split e hit first by (auto simp add: list_ex_iff)
qed

text \<open>Two entries match; the earlier one in the catalogue wins.\<close>

theorem predict_first_match_witness:
  "predict today_joke (\<lambda>t. None) ''tell me a joke today'' = (''time_date'', 0.95)"
  using predict_first_match [of "''joke''" "[rx ''%b(joke|funny|laugh|humor|amuse|entertain)%b'']"
      "rx ''%b(joke|funny|laugh|humor|amuse|entertain)%b''" today_joke "''tell me a joke today''"
      "\<lambda>t. None"]
  by (simp add: INTENT_PATTERNS_def today_joke_def predict_def rx_def)

text \<open>
  Claim C10. When \<open>predict\<close> returns the label \<open>general\<close>, the confidence is 0.50:
  the regex stage skips the entry \<open>general\<close>, the statistical stage returns a label of
  the reference corpus, and \<open>general\<close> is none of them.
\<close>

theorem predict_general_conf:
  "fst (predict re_search tfidf_sims text) = ''general'' \<Longrightarrow>
   snd (predict re_search tfidf_sims text) = 0.50"
  using general_not_corpus
  by (auto simp add: predict_def split: option.splits dest: regex_stage_Some tfidf_stage_Some)

theorem predict_general_conf_witness:
  "fst (predict (\<lambda>p t. False) (\<lambda>t. None) []) = ''general'' \<and>
   snd (predict (\<lambda>p t. False) (\<lambda>t. None) []) = 0.50"
  using predict_general_conf [of "\<lambda>p t. False" "\<lambda>t. None" "[]"]
  by (simp add: predict_def INTENT_PATTERNS_def tfidf_stage_def)








section \<open>Properties of NERExtractor.extract\<close>

lemma ner_extract_foldl:
  "ner_extract re_findall text = foldl (ner_step re_findall text) [] NER_PATTERNS"
  by (simp add: ner_extract_def)

lemma ner_step_keys:
  "map fst (ner_step f text acc (l, p)) =
     (if f p text \<noteq> [] \<and> l \<notin> set (map fst acc) then map fst acc @ [l] else map fst acc)"
  by (simp add: ner_step_def Let_def update_keys)

lemma ner_fold_keys:
  "distinct (map fst pats) \<Longrightarrow> set (map fst pats) \<inter> set (map fst acc) = {} \<Longrightarrow>
   map fst (foldl (ner_step f text) acc pats) =
     map fst acc @ map fst (filter (\<lambda>lp. f (snd lp) text \<noteq> []) pats)"
proof (induction pats arbitrary: acc)
  case Nil
  then show ?case by simp
next
  case (Cons lp pats)
  obtain l p where lp: "lp = (l, p)" by (cases lp)
  have "set (map fst pats) \<inter> set (map fst (ner_step f text acc (l, p))) = {}"
    using Cons.prems by (auto simp add: lp ner_step_keys)
  moreover have "distinct (map fst pats)" using Cons.prems by simp
  ultimately have "map fst (foldl (ner_step f text) (ner_step f text acc (l, p)) pats) =
     map fst (ner_step f text acc (l, p)) @ map fst (filter (\<lambda>lp. f (snd lp) text \<noteq> []) pats)"
    by (intro Cons.IH)
  then show ?case
    using Cons.prems by (auto simp add: lp ner_step_keys)
qed

lemma ner_fold_map_of:
  "distinct (map fst pats) \<Longrightarrow>
   map_of (foldl (ner_step f text) acc pats) k =
     (case map_of pats k of
        None \<Rightarrow> map_of acc k
      | Some p \<Rightarrow> if f p text \<noteq> [] then Some (fromkeys (f p text)) else map_of acc k)"
proof (induction pats arbitrary: acc)
  case Nil
  then show ?case by simp
next
  case (Cons lp pats)
  obtain l p where lp: "lp = (l, p)" by (cases lp)
  have d: "distinct (map fst pats)" and nl: "l \<notin> fst ` set pats"
    using Cons.prems by (auto simp add: lp)
  have none: "map_of pats l = None" using nl by (simp add: map_of_eq_None_iff)
  show ?case
    using Cons.IH [OF d, of "ner_step f text acc (l, p)"] none
    by (auto simp add: lp ner_step_def Let_def update_conv' split: option.splits)
qed

lemma distinct_NER_keys: "distinct (map fst NER_PATTERNS)"
  by (simp add: NER_PATTERNS_def)

text \<open>
  Claim C9. In the mapping that \<open>extract\<close> returns no entity type is bound to the
  empty list: the types of the result are the types of the pattern table with at least one
  match, in the order of the table, each once. A type with matches is bound to the matched
  strings, each exactly once, in the order of their first occurrences among the matches;
  a type without matches is absent.
\<close>

theorem ner_extract_entities:
  "(\<forall>kv \<in> set (ner_extract re_findall text). snd kv \<noteq> [])
 \<and> distinct (map fst (ner_extract re_findall text))
 \<and> map fst (ner_extract re_findall text) =
       map fst (filter (\<lambda>lp. re_findall (snd lp) text \<noteq> []) NER_PATTERNS)
 \<and> (\<forall>lp \<in> set NER_PATTERNS.
       map_of (ner_extract re_findall text) (fst lp) =
         (if re_findall (snd lp) text = [] then None
          else Some (first_occurrences (re_findall (snd lp) text)))
     \<and> distinct (first_occurrences (re_findall (snd lp) text))
     \<and> set (first_occurrences (re_findall (snd lp) text)) = set (re_findall (snd lp) text))"
proof -
  let ?r = "ner_extract re_findall text"
  have keys: "map fst ?r = map fst (filter (\<lambda>lp. re_findall (snd lp) text \<noteq> []) NER_PATTERNS)"
    using ner_fold_keys [OF distinct_NER_keys, of "[]" re_findall "text"]
    by (simp add: ner_extract_foldl)
  have dist: "distinct (map fst ?r)"
    unfolding keys using distinct_NER_keys by (simp add: distinct_map_filter)
  have look: "map_of ?r (fst lp) =
         (if re_findall (snd lp) text = [] then None
          else Some (first_occurrences (re_findall (snd lp) text)))"
    if "lp \<in> set NER_PATTERNS" for lp
  proof -
    from that have "map_of NER_PATTERNS (fst lp) = Some (snd lp)"
      using distinct_NER_keys by simp
    then show ?thesis
      using ner_fold_map_of [OF distinct_NER_keys, of re_findall "text" "[]" "fst lp"]
      by (simp add: ner_extract_foldl fromkeys_first_occurrences)
  qed
  have nonempty: "snd kv \<noteq> []" if "kv \<in> set ?r" for kv
  proof -
    from that dist have m: "map_of ?r (fst kv) = Some (snd kv)" by simp
    from that have "fst kv \<in> set (map fst ?r)" by force
    then obtain lp where lp: "lp \<in> set NER_PATTERNS" "fst lp = fst kv"
      unfolding keys by auto
    from look [OF lp(1)] m lp(2) have ne: "re_findall (snd lp) text \<noteq> []"
      and v: "snd kv = first_occurrences (re_findall (snd lp) text)"
      by (auto split: if_splits)
    from ne have "set (fromkeys (re_findall (snd lp) text)) \<noteq> {}"
      by (simp add: set_fromkeys)
    then show ?thesis by (auto simp add: v fromkeys_first_occurrences [symmetric])
  qed
  have occ: "distinct (first_occurrences ms) \<and> set (first_occurrences ms) = set ms" for ms :: "string list"
    using distinct_fromkeys [of ms] set_fromkeys [of ms] by (simp add: fromkeys_first_occurrences)
  from nonempty dist keys look occ show ?thesis by blast
qed

text \<open>An address found twice is listed once, at its first place.\<close>

theorem ner_extract_entities_witness:
  "ner_extract two_mails ''write to a@b.com or c@d.org, a@b.com is best'' =
     [(''EMAIL'', [''a@b.com'', ''c@d.org''])]"
  using ner_extract_entities [of two_mails "''write to a@b.com or c@d.org, a@b.com is best''"]
  by (simp add: ner_extract_def ner_step_def NER_PATTERNS_def two_mails_def rx_def fromkeys_def)


section \<open>Properties of ContextMemory.get_summary\<close>

lemma max_key_from_first:
  "max_key_from f b xs = hd (filter (\<lambda>y. \<forall>z \<in> set (b # xs). f z \<le> f y) (b # xs))"
proof (induction xs arbitrary: b)
  case Nil
  then show ?case by simp
next
  case (Cons x xs)
  define M where "M = (\<lambda>y. \<forall>z \<in> set (b # x # xs). f z \<le> f y)"
  show ?case
  proof (cases "f b < f x")
    case True
    define N where "N = (\<lambda>y. \<forall>z \<in> set (x # xs). f z \<le> f y)"
    have "filter M (x # xs) = filter N (x # xs)"
      by (rule filter_cong) (use True in \<open>auto simp add: M_def N_def\<close>)
    moreover have "\<not> M b" using True by (auto simp add: M_def)
    ultimately have "filter M (b # x # xs) = filter N (x # xs)" by simp
    moreover have "max_key_from f b (x # xs) = hd (filter N (x # xs))"
      using True Cons.IH [of x] by (simp add: N_def)
    ultimately show ?thesis by (simp add: M_def)
  next
    case False
    define N where "N = (\<lambda>y. \<forall>z \<in> set (b # xs). f z \<le> f y)"
    have run: "max_key_from f b (x # xs) = hd (filter N (b # xs))"
      using False Cons.IH [of b] by (simp add: N_def)
    show ?thesis
    proof (cases "N b")
      case True
      then have "M b" using False by (auto simp add: M_def N_def)
      with True run show ?thesis by (simp add: M_def)
    next
      case nb: False
      then obtain z where z: "z \<in> set xs" "f b < f z" by (auto simp add: N_def)
      then have "\<not> M b" and "\<not> M x" using False by (force simp add: M_def)+
      moreover have "filter M xs = filter N xs"
        by (rule filter_cong) (use False in \<open>force simp add: M_def N_def\<close>)+
      ultimately have "filter M (b # x # xs) = filter N (b # xs)" using nb by simp
      with run show ?thesis by (simp add: M_def)
    qed
  qed
qed

lemma set_set_iter: "set (set_iter hash_rank xs) = set xs"
  by (simp add: set_iter_def)

lemma distinct_set_iter: "distinct (set_iter hash_rank xs)"
  by (simp add: set_iter_def)

lemma top_intent_first:
  assumes "history \<noteq> []"
  shows "top_intent hash_rank history =
     hd (filter (\<lambda>l. \<forall>l' \<in> set history. count_list history l' \<le> count_list history l)
          (set_iter hash_rank history))"
proof -
  let ?it = "set_iter hash_rank history"
  have "set ?it \<noteq> {}" using assms by (simp add: set_set_iter)
  then have it: "hd ?it # tl ?it = ?it" by simp
  have "top_intent hash_rank history = max_key_from (count_list history) (hd ?it) (tl ?it)"
    using assms by (simp add: top_intent_def)
  also have "\<dots> = hd (filter (\<lambda>y. \<forall>z \<in> set (hd ?it # tl ?it).
        count_list history z \<le> count_list history y) (hd ?it # tl ?it))"
    by (rule max_key_from_first)
  finally show ?thesis unfolding it set_set_iter .
qed

lemma exists_max_count:
  assumes "history \<noteq> []"
  shows "\<exists>l \<in> set history. \<forall>l' \<in> set history. count_list history l' \<le> count_list history l"
proof -
  have "finite (count_list history ` set history)" and "count_list history ` set history \<noteq> {}"
    using assms by simp_all
  then have "Max (count_list history ` set history) \<in> count_list history ` set history"
    by (rule Max_in)
  then obtain l where l: "l \<in> set history"
    "count_list history l = Max (count_list history ` set history)" by auto
  have "\<forall>l' \<in> set history. count_list history l' \<le> count_list history l"
    unfolding l(2) by simp
  with l(1) show ?thesis by blast
qed

lemma hd_filter_props:
  assumes "\<exists>x \<in> set xs. P x"
  shows "hd (filter P xs) \<in> set xs" and "P (hd (filter P xs))"
proof -
  from assms have ne: "filter P xs \<noteq> []" by (simp add: filter_empty_conv)
  then have mem: "hd (filter P xs) \<in> set (filter P xs)" by (rule hd_in_set)
  from mem show "hd (filter P xs) \<in> set xs" by simp
  from mem show "P (hd (filter P xs))" by simp
qed

lemma top_intent_mode:
  assumes "history \<noteq> []"
  shows "top_intent hash_rank history \<in> set history"
    and "\<forall>l \<in> set history. count_list history l \<le> count_list history (top_intent hash_rank history)"
proof -
  let ?P = "\<lambda>l. \<forall>l' \<in> set history. count_list history l' \<le> count_list history l"
  have ex: "\<exists>x \<in> set (set_iter hash_rank history). ?P x"
    using exists_max_count [OF assms] by (simp add: set_set_iter)
  from hd_filter_props [OF ex]
  show "top_intent hash_rank history \<in> set history"
    and "\<forall>l \<in> set history. count_list history l \<le> count_list history (top_intent hash_rank history)"
    unfolding top_intent_first [OF assms] by (simp_all add: set_set_iter)
qed

lemma mode_first_seen_mode:
  assumes "history \<noteq> []"
  shows "mode_first_seen history \<in> set history"
    and "\<forall>l \<in> set history. count_list history l \<le> count_list history (mode_first_seen history)"
proof -
  let ?P = "\<lambda>l. \<forall>l' \<in> set history. count_list history l' \<le> count_list history l"
  have ex: "\<exists>x \<in> set history. ?P x" using exists_max_count [OF assms] .
  from hd_filter_props [OF ex] assms
  show "mode_first_seen history \<in> set history"
    and "\<forall>l \<in> set history. count_list history l \<le> count_list history (mode_first_seen history)"
    by (simp_all add: mode_first_seen_def)
qed

lemma setdefault_extend_keys:
  "map fst (setdefault_extend seen kv) =
     (if fst kv \<in> set (map fst seen) then map fst seen else map fst seen @ [fst kv])"
  by (cases kv) (simp add: setdefault_extend_def update_keys)

lemma entities_seen_keys:
  "map fst (foldl setdefault_extend seen ents) = fromkeys_acc (map fst seen) (map fst ents)"
  by (induction ents arbitrary: seen) (simp_all add: setdefault_extend_keys)


lemma keys_after_adds:
  "\<forall>c \<in> set cs. is_add c \<Longrightarrow>
   map fst (entities_seen (foldl call_memory m cs)) =
     fromkeys_acc (map fst (entities_seen m))
       (concat (map (\<lambda>c. map fst (turn_entities (turn_of c))) cs))"
proof (induction cs arbitrary: m)
  case Nil
  then show ?case by simp
next
  case (Cons c cs)
  from Cons.prems obtain now role body intent entities
    where c: "c = AddTurn now role body intent entities"
    by (cases c) auto
  have step: "map fst (entities_seen (call_memory m c)) =
      fromkeys_acc (map fst (entities_seen m)) (map fst (turn_entities (turn_of c)))"
    by (simp add: c add_turn_def make_turn_def entities_seen_keys)
  have "\<forall>c \<in> set cs. is_add c" using Cons.prems by simp
  from Cons.IH [OF this, of "call_memory m c"] show ?case
    by (simp add: step fromkeys_acc_append)
qed

text \<open>
  Claim C6, amended. \<open>get_summary\<close> reports the number of turns in the window, the
  dominant intent and the entity types seen so far. The dominant intent is \<open>N/A\<close> for
  an empty topic trail; otherwise it is a label of the trail that no label of the trail
  occurs more often than (a mode), namely the first such label in the order in which the
  runtime iterates the set of the labels. When one label occurs more often than every
  other, this is the mode that a scan of the trail finds; among labels that tie, the
  choice follows the iteration order of the set, not the order of the trail. The entity
  types are listed in the order in which they were first seen.
\<close>

theorem get_summary_reports:
  "get_summary hash_rank m =
     summary_line (length (turns m)) (top_intent hash_rank (topic_history m))
       (map fst (entities_seen m))
 \<and> (topic_history m = [] \<longrightarrow> top_intent hash_rank (topic_history m) = ''N/A'')
 \<and> (topic_history m \<noteq> [] \<longrightarrow>
       top_intent hash_rank (topic_history m) \<in> set (topic_history m)
     \<and> (\<forall>l \<in> set (topic_history m).
           count_list (topic_history m) l
             \<le> count_list (topic_history m) (top_intent hash_rank (topic_history m)))
     \<and> top_intent hash_rank (topic_history m) =
         hd (filter (\<lambda>l. \<forall>l' \<in> set (topic_history m).
                       count_list (topic_history m) l' \<le> count_list (topic_history m) l)
              (set_iter hash_rank (topic_history m)))
     \<and> ((\<forall>l \<in> set (topic_history m). l \<noteq> mode_first_seen (topic_history m) \<longrightarrow>
            count_list (topic_history m) l
              < count_list (topic_history m) (mode_first_seen (topic_history m)))
          \<longrightarrow> top_intent hash_rank (topic_history m) = mode_first_seen (topic_history m)))
 \<and> ((\<forall>c \<in> set adds. is_add c) \<longrightarrow>
       map fst (entities_seen (foldl call_memory (new_memory W) adds)) =
         first_occurrences (concat (map (\<lambda>c. map fst (turn_entities (turn_of c))) adds)))"
proof -
  let ?h = "topic_history m"
  let ?top = "top_intent hash_rank ?h"
  have line: "get_summary hash_rank m =
     summary_line (length (turns m)) ?top (map fst (entities_seen m))"
    by (simp add: get_summary_def)
  have empty: "?h = [] \<longrightarrow> ?top = ''N/A''"
    by (simp add: top_intent_def)
  have mode: "?top \<in> set ?h
     \<and> (\<forall>l \<in> set ?h. count_list ?h l \<le> count_list ?h ?top)
     \<and> ?top = hd (filter (\<lambda>l. \<forall>l' \<in> set ?h. count_list ?h l' \<le> count_list ?h l)
              (set_iter hash_rank ?h))
     \<and> ((\<forall>l \<in> set ?h. l \<noteq> mode_first_seen ?h \<longrightarrow>
            count_list ?h l < count_list ?h (mode_first_seen ?h))
          \<longrightarrow> ?top = mode_first_seen ?h)"
    if ne: "?h \<noteq> []"
  proof -
    note t = top_intent_mode [OF ne, of hash_rank]
    note s = mode_first_seen_mode [OF ne]
    have unique: "?top = mode_first_seen ?h"
      if u: "\<forall>l \<in> set ?h. l \<noteq> mode_first_seen ?h \<longrightarrow>
            count_list ?h l < count_list ?h (mode_first_seen ?h)"
    proof (rule ccontr)
      assume "?top \<noteq> mode_first_seen ?h"
      with u t(1) have "count_list ?h ?top < count_list ?h (mode_first_seen ?h)" by blast
      moreover from t(2) s(1) have "count_list ?h (mode_first_seen ?h) \<le> count_list ?h ?top"
        by blast
      ultimately show False by simp
    qed
    from t top_intent_first [OF ne, of hash_rank] unique show ?thesis by blast
  qed
  have keys: "map fst (entities_seen (foldl call_memory (new_memory W) adds)) =
         first_occurrences (concat (map (\<lambda>c. map fst (turn_entities (turn_of c))) adds))"
    if "\<forall>c \<in> set adds. is_add c"
    using keys_after_adds [OF that, of "new_memory W"]
    by (simp add: new_memory_def fromkeys_first_occurrences [symmetric] fromkeys_def)
  from line empty mode keys show ?thesis by blast
qed

text \<open>Four turns, the trail \<open>help, joke, joke\<close> and one entity type.\<close>

theorem get_summary_reports_witness:
  "get_summary joke_first
     (foldl call_memory (new_memory 20)
        [AddTurn 1 ''user'' ''help me'' (Some ''help'') None,
         AddTurn 2 ''model'' ''Just ask away!'' None None,
         AddTurn 3 ''user'' ''a joke for a@b.com'' (Some ''joke'') (Some [(''EMAIL'', [''a@b.com''])]),
         AddTurn 4 ''user'' ''another joke'' (Some ''joke'') None])
   = ''4 turns '' @ [CHR 0xC2, CHR 0xB7] @ '' dominant intent: joke '' @ [CHR 0xC2, CHR 0xB7]
       @ '' entities seen: ['' @ [CHR 0x27] @ ''EMAIL'' @ [CHR 0x27] @ '']''
 \<and> top_intent joke_first
       (topic_history (foldl call_memory (new_memory 20)
        [AddTurn 1 ''user'' ''help me'' (Some ''help'') None,
         AddTurn 2 ''model'' ''Just ask away!'' None None,
         AddTurn 3 ''user'' ''a joke for a@b.com'' (Some ''joke'') (Some [(''EMAIL'', [''a@b.com''])]),
         AddTurn 4 ''user'' ''another joke'' (Some ''joke'') None])) = ''joke''"
proof -
  let ?m = "foldl call_memory (new_memory 20)
        [AddTurn 1 ''user'' ''help me'' (Some ''help'') None,
         AddTurn 2 ''model'' ''Just ask away!'' None None,
         AddTurn 3 ''user'' ''a joke for a@b.com'' (Some ''joke'') (Some [(''EMAIL'', [''a@b.com''])]),
         AddTurn 4 ''user'' ''another joke'' (Some ''joke'') None]"
  have line: "summary_line (length (turns ?m)) ''joke'' (map fst (entities_seen ?m))
   = ''4 turns '' @ [CHR 0xC2, CHR 0xB7] @ '' dominant intent: joke '' @ [CHR 0xC2, CHR 0xB7]
       @ '' entities seen: ['' @ [CHR 0x27] @ ''EMAIL'' @ [CHR 0x27] @ '']''"
    by code_simp
  have top: "top_intent joke_first (topic_history ?m) = ''joke''"
    by code_simp
  from get_summary_reports [of joke_first ?m "[]" 20] line top show ?thesis by simp
qed

text \<open>The tie-break by the first label of the trail does not hold: on the trail
  \<open>help, joke\<close> a scan of the trail gives \<open>help\<close>, and with a hash order that
  iterates \<open>joke\<close> first the summary reports \<open>joke\<close>.\<close>

theorem summary_tie_by_hash_order:
  "topic_history (foldl call_memory (new_memory 20)
      [AddTurn 1 ''user'' ''help me'' (Some ''help'') None,
       AddTurn 2 ''user'' ''tell me a joke'' (Some ''joke'') None]) = [''help'', ''joke'']
 \<and> mode_first_seen [''help'', ''joke''] = ''help''
 \<and> top_intent joke_first [''help'', ''joke''] = ''joke''
 \<and> get_summary joke_first (foldl call_memory (new_memory 20)
      [AddTurn 1 ''user'' ''help me'' (Some ''help'') None,
       AddTurn 2 ''user'' ''tell me a joke'' (Some ''joke'') None])
   = ''2 turns '' @ [CHR 0xC2, CHR 0xB7] @ '' dominant intent: joke '' @ [CHR 0xC2, CHR 0xB7]
       @ '' entities seen: []''"
  by code_simp


section \<open>Properties of IntentRecogniser.predict_multi\<close>

lemma py_slice_to_take: "\<exists>n. py_slice_to k xs = take n xs"
  by (auto simp add: py_slice_to_def)

lemma py_slice_to_nonneg: "0 \<le> k \<Longrightarrow> py_slice_to k xs = take (nat k) xs"
  by (simp add: py_slice_to_def)

lemma set_py_slice_to: "set (py_slice_to k xs) \<subseteq> set xs"
  using py_slice_to_take [of k xs] by (auto dest: in_set_takeD)

lemma distinct_py_slice_to: "distinct (map f xs) \<Longrightarrow> distinct (map f (py_slice_to k xs))"
  using py_slice_to_take [of k xs] by (auto simp add: take_map [symmetric])

lemma sorted_wrt_py_slice_to: "sorted_wrt R xs \<Longrightarrow> sorted_wrt R (py_slice_to k xs)"
  using py_slice_to_take [of k xs] by (auto simp add: sorted_wrt_take)

lemma update_fresh: "k \<notin> fst ` set al \<Longrightarrow> AList.update k v al = al @ [(k, v)]"
  by (induction al) auto

lemma see_map_of:
  "map_of (see acc (l0, c0)) l =
     (if l = l0
      then Some (case map_of acc l0 of None \<Rightarrow> c0 | Some old \<Rightarrow> if old < c0 then c0 else old)
      else map_of acc l)"
  by (auto simp add: see_def update_conv' split: option.splits)

lemma see_distinct: "distinct (map fst acc) \<Longrightarrow> distinct (map fst (see acc hit))"
  by (cases hit) (auto simp add: see_def distinct_update split: option.splits)

lemma foldl_see_distinct: "distinct (map fst acc) \<Longrightarrow> distinct (map fst (foldl see acc hits))"
  by (induction hits arbitrary: acc) (simp_all add: see_distinct)

lemma foldl_see_map_of:
  "(case map_of (foldl see acc hits) l of
      None \<Rightarrow> map_of acc l = None \<and> l \<notin> fst ` set hits
    | Some c \<Rightarrow> (map_of acc l = Some c \<or> (l, c) \<in> set hits)
               \<and> (\<forall>c'. map_of acc l = Some c' \<longrightarrow> c' \<le> c)
               \<and> (\<forall>c'. (l, c') \<in> set hits \<longrightarrow> c' \<le> c))"
proof (induction hits arbitrary: acc)
  case Nil
  then show ?case by (simp split: option.splits)
next
  case (Cons hit hits)
  obtain l0 c0 where hit: "hit = (l0, c0)" by (cases hit)
  show ?case
    using Cons.IH [of "see acc (l0, c0)"]
    by (auto simp add: hit see_map_of split: option.splits if_splits)
qed

lemma foldl_see_fresh:
  "distinct (map fst (acc @ hits)) \<Longrightarrow> foldl see acc hits = acc @ hits"
proof (induction hits arbitrary: acc)
  case Nil
  then show ?case by simp
next
  case (Cons hit hits)
  obtain l0 c0 where hit: "hit = (l0, c0)" by (cases hit)
  from Cons.prems have fresh: "l0 \<notin> fst ` set acc" by (auto simp add: hit)
  then have "map_of acc l0 = None" by (simp add: map_of_eq_None_iff)
  then have s: "see acc (l0, c0) = acc @ [(l0, c0)]"
    using fresh by (simp add: see_def update_fresh)
  have "distinct (map fst ((acc @ [(l0, c0)]) @ hits))" using Cons.prems by (simp add: hit)
  from Cons.IH [OF this] show ?case by (simp add: hit s)
qed

lemma regex_hits_filter:
  "regex_hits re_search cat text =
     map (\<lambda>e. (fst e, 0.95))
       (filter (\<lambda>e. fst e \<noteq> ''general'' \<and> list_ex (\<lambda>p. re_search p text) (snd e)) cat)"
  by (induction cat) auto

lemma distinct_catalogue: "distinct (map fst INTENT_PATTERNS)"
  by (simp add: INTENT_PATTERNS_def)

lemma distinct_regex_hits: "distinct (map fst (regex_hits re_search INTENT_PATTERNS text))"
  using distinct_catalogue
  by (simp add: regex_hits_filter o_def distinct_map_filter)

lemma sorted_regex_hits:
  "sorted (map (\<lambda>x. - snd x) (regex_hits re_search cat text))"
  by (simp add: regex_hits_filter o_def sorted_iff_nth_mono)

lemma stat_hits_from:
  "lc \<in> set (stat_hits sims ranked) \<Longrightarrow>
     \<exists>idx \<in> set ranked. fl 0.05 < sims ! idx \<and> lc = (corpus_labels ! idx, py_round (sims ! idx) 3)"
  by (induction ranked) (auto split: if_splits)

lemma stat_hits_filter:
  "\<forall>idx \<in> set ranked. idx < length corpus_labels \<Longrightarrow>
   stat_hits sims ranked =
     map (\<lambda>idx. (corpus_labels ! idx, py_round (sims ! idx) 3))
       (filter (\<lambda>idx. fl 0.05 < sims ! idx) ranked)"
  by (induction ranked) auto

lemma set_argsort: "set (argsort tie sims) = {0..<length sims}"
  by (simp add: argsort_def)

lemma distinct_argsort: "distinct (argsort tie sims)"
  by (simp add: argsort_def)

lemma sorted_rev_argsort: "sorted_wrt (\<lambda>i j. sims ! j \<le> sims ! i) (rev (argsort tie sims))"
proof -
  have "sorted (map (\<lambda>i. sims ! i) (argsort tie sims))" by (simp add: argsort_def)
  then have "sorted_wrt (\<lambda>i j. sims ! i \<le> sims ! j) (argsort tie sims)"
    by (simp add: sorted_map)
  then show ?thesis by (simp add: sorted_wrt_rev)
qed

lemma distinct_corpus_labels: "distinct corpus_labels"
  by (simp add: corpus_labels_def TFIDF_CORPUS_def)

text \<open>The candidates of a ranking without repetition that is in descending order of
  similarity have no label twice and are in descending order of confidence.\<close>

lemma candidates_ranked:
  assumes d: "distinct ranked"
    and idx: "\<forall>idx \<in> set ranked. idx < length corpus_labels"
    and s: "sorted_wrt (\<lambda>i j. sims ! j \<le> sims ! i) ranked"
  shows "distinct (map fst (map (\<lambda>idx. (corpus_labels ! idx, py_round (sims ! idx) 3))
                      (filter (\<lambda>idx. fl 0.05 < sims ! idx) ranked)))"
    and "sorted (map (\<lambda>x. - snd x) (map (\<lambda>idx. (corpus_labels ! idx, py_round (sims ! idx) 3))
                      (filter (\<lambda>idx. fl 0.05 < sims ! idx) ranked)))"
proof -
  let ?f = "filter (\<lambda>idx. fl 0.05 < sims ! idx) ranked"
  have "inj_on (\<lambda>idx. corpus_labels ! idx) (set ?f)"
    using idx distinct_corpus_labels by (auto simp add: inj_on_def nth_eq_iff_index_eq)
  moreover have "distinct ?f" using d by simp
  ultimately have "distinct (map (\<lambda>idx. corpus_labels ! idx) ?f)" by (simp add: distinct_map)
  then show "distinct (map fst (map (\<lambda>idx. (corpus_labels ! idx, py_round (sims ! idx) 3)) ?f))"
    by (simp add: o_def)
  have "sorted_wrt (\<lambda>i j. sims ! j \<le> sims ! i) ?f" using s by (rule sorted_wrt_filter)
  then have "sorted_wrt (\<lambda>i j. - py_round (sims ! i) 3 \<le> - py_round (sims ! j) 3) ?f"
    by (rule sorted_wrt_mono_rel [rotated]) (simp add: py_round_mono)
  then show "sorted (map (\<lambda>x. - snd x)
      (map (\<lambda>idx. (corpus_labels ! idx, py_round (sims ! idx) 3)) ?f))"
    by (simp add: o_def sorted_map)
qed

text \<open>Hits without a repeated label that are in descending order of confidence pass
  the deduplication and the sort unchanged.\<close>

lemma predict_multi_of_ranked_hits:
  assumes h: "multi_hits re_search tfidf_sims tie text top_k = hits"
    and d: "distinct (map fst hits)"
    and s: "sorted (map (\<lambda>x. - snd x) hits)"
  shows "predict_multi re_search tfidf_sims tie text top_k = py_slice_to top_k hits"
proof -
  have "foldl see [] hits = [] @ hits" by (rule foldl_see_fresh) (simp add: d)
  moreover have "sort_key (\<lambda>x. - snd x) hits = hits" using s by (rule sort_key_id_if_sorted)
  ultimately show ?thesis by (simp add: predict_multi_def h)
qed


text \<open>
  Claim C8, amended. The list that \<open>predict_multi\<close> returns has no label twice and is
  in descending order of confidence, for every text and every \<open>top_k\<close>; for
  \<open>top_k \<ge> 0\<close> its length is at most \<open>top_k\<close>. Each of its pairs is one of the hits and
  carries the greatest confidence that the hits give its label. The regex hits are one pair
  of confidence 0.95 for each catalogue entry with a matching pattern, in catalogue order;
  when there is one, the hits are the regex hits alone and the result is their slice. When
  there is none, a hit is a statistical candidate (a corpus label whose similarity is
  above the float of 0.05, with the similarity rounded to three decimals) or the fallback
  pair; the fallback pair is the only hit when the transform fails; and when the transform
  gives a row of ten similarities, the ranking is the ten indices in descending order of
  similarity, the hits are the candidates among the first \<open>top_k\<close> indices of the
  ranking, in that order, or the fallback pair when there is no candidate among them, and
  the result is the slice of the hits.
\<close>

theorem predict_multi_ranked:
  "distinct (map fst (predict_multi re_search tfidf_sims tie text top_k))
 \<and> sorted_wrt (\<lambda>a b. snd b \<le> snd a) (predict_multi re_search tfidf_sims tie text top_k)
 \<and> (0 \<le> top_k \<longrightarrow> int (length (predict_multi re_search tfidf_sims tie text top_k)) \<le> top_k)
 \<and> (\<forall>lc \<in> set (predict_multi re_search tfidf_sims tie text top_k).
        lc \<in> set (multi_hits re_search tfidf_sims tie text top_k)
      \<and> (\<forall>c'. (fst lc, c') \<in> set (multi_hits re_search tfidf_sims tie text top_k)
             \<longrightarrow> c' \<le> snd lc))
 \<and> regex_hits re_search INTENT_PATTERNS text =
       map (\<lambda>e. (fst e, 0.95))
         (filter (\<lambda>e. fst e \<noteq> ''general'' \<and> list_ex (\<lambda>p. re_search p text) (snd e))
            INTENT_PATTERNS)
 \<and> (regex_hits re_search INTENT_PATTERNS text \<noteq> [] \<longrightarrow>
        multi_hits re_search tfidf_sims tie text top_k = regex_hits re_search INTENT_PATTERNS text
      \<and> predict_multi re_search tfidf_sims tie text top_k =
          py_slice_to top_k (regex_hits re_search INTENT_PATTERNS text))
 \<and> (regex_hits re_search INTENT_PATTERNS text = [] \<longrightarrow>
        (\<forall>lc \<in> set (multi_hits re_search tfidf_sims tie text top_k).
           lc = (''general'', 0.50) \<or>
           (\<exists>sims idx. tfidf_sims text = Some sims \<and> idx < length sims \<and>
              fl 0.05 < sims ! idx \<and> lc = (corpus_labels ! idx, py_round (sims ! idx) 3)))
      \<and> (tfidf_sims text = None \<longrightarrow>
            multi_hits re_search tfidf_sims tie text top_k = [(''general'', 0.50)]
          \<and> predict_multi re_search tfidf_sims tie text top_k =
              py_slice_to top_k [(''general'', 0.50)])
      \<and> (\<forall>sims. tfidf_sims text = Some sims \<and> length sims = length corpus_labels \<longrightarrow>
            distinct (rev (argsort tie sims))
          \<and> set (rev (argsort tie sims)) = {0..<length corpus_labels}
          \<and> sorted_wrt (\<lambda>i j. sims ! j \<le> sims ! i) (rev (argsort tie sims))
          \<and> multi_hits re_search tfidf_sims tie text top_k =
              (let cands = map (\<lambda>idx. (corpus_labels ! idx, py_round (sims ! idx) 3))
                             (filter (\<lambda>idx. fl 0.05 < sims ! idx)
                                (py_slice_to top_k (rev (argsort tie sims))))
               in if cands = [] then [(''general'', 0.50)] else cands)
          \<and> predict_multi re_search tfidf_sims tie text top_k =
              py_slice_to top_k (multi_hits re_search tfidf_sims tie text top_k)))"
proof -
  let ?hits = "multi_hits re_search tfidf_sims tie text top_k"
  let ?seen = "foldl see [] ?hits"
  let ?sorted = "sort_key (\<lambda>x. - snd x) ?seen"
  let ?r = "predict_multi re_search tfidf_sims tie text top_k"
  let ?rh = "regex_hits re_search INTENT_PATTERNS text"
  have r: "?r = py_slice_to top_k ?sorted"
    by (simp add: predict_multi_def)
  have dseen: "distinct (map fst ?seen)"
    by (rule foldl_see_distinct) simp
  then have "distinct (map fst ?sorted)"
    by (simp add: distinct_map)
  then have d: "distinct (map fst ?r)"
    unfolding r by (rule distinct_py_slice_to)
  have "sorted (map (\<lambda>x. - snd x) ?sorted)" by simp
  then have "sorted_wrt (\<lambda>a b. snd b \<le> snd a) ?sorted"
    by (simp add: sorted_map)
  then have s: "sorted_wrt (\<lambda>a b. snd b \<le> snd a) ?r"
    unfolding r by (rule sorted_wrt_py_slice_to)
  have len: "0 \<le> top_k \<longrightarrow> int (length ?r) \<le> top_k"
    by (auto simp add: r py_slice_to_nonneg)
  have from_hits: "lc \<in> set ?hits \<and> (\<forall>c'. (fst lc, c') \<in> set ?hits \<longrightarrow> c' \<le> snd lc)"
    if "lc \<in> set ?r" for lc
  proof -
    from that have "lc \<in> set ?seen"
      using set_py_slice_to [of top_k ?sorted] by (auto simp add: r)
    with dseen have "map_of ?seen (fst lc) = Some (snd lc)" by simp
    with foldl_see_map_of [where acc = "[]" and hits = ?hits and l = "fst lc"] show ?thesis by simp
  qed
  have rx: "?rh = map (\<lambda>e. (fst e, 0.95))
         (filter (\<lambda>e. fst e \<noteq> ''general'' \<and> list_ex (\<lambda>p. re_search p text) (snd e))
            INTENT_PATTERNS)"
    by (rule regex_hits_filter)
  have by_regex: "?hits = ?rh \<and> ?r = py_slice_to top_k ?rh" if ne: "?rh \<noteq> []"
  proof -
    have h: "?hits = ?rh" using ne by (simp add: multi_hits_def Let_def)
    from predict_multi_of_ranked_hits [OF h distinct_regex_hits sorted_regex_hits] h
    show ?thesis by simp
  qed
  have by_stats: "lc = (''general'', 0.50) \<or>
           (\<exists>sims idx. tfidf_sims text = Some sims \<and> idx < length sims \<and>
              fl 0.05 < sims ! idx \<and> lc = (corpus_labels ! idx, py_round (sims ! idx) 3))"
    if e: "?rh = []" and lc: "lc \<in> set ?hits" for lc
  proof (cases "tfidf_sims text")
    case None
    with e lc show ?thesis by (simp add: multi_hits_def Let_def)
  next
    case (Some sims)
    let ?ranked = "py_slice_to top_k (rev (argsort tie sims))"
    show ?thesis
    proof (cases "stat_hits sims ?ranked = []")
      case True
      with e lc Some show ?thesis by (simp add: multi_hits_def Let_def)
    next
      case False
      with e lc Some have "lc \<in> set (stat_hits sims ?ranked)"
        by (simp add: multi_hits_def Let_def)
      from stat_hits_from [OF this] obtain idx where idx: "idx \<in> set ?ranked"
        and v: "fl 0.05 < sims ! idx" "lc = (corpus_labels ! idx, py_round (sims ! idx) 3)"
        by blast
      from idx have "idx < length sims"
        using set_py_slice_to [of top_k "rev (argsort tie sims)"] by (auto simp add: set_argsort)
      with Some v show ?thesis by blast
    qed
  qed
  have no_row: "?hits = [(''general'', 0.50)] \<and> ?r = py_slice_to top_k [(''general'', 0.50)]"
    if e: "?rh = []" and n: "tfidf_sims text = None"
  proof -
    have h: "?hits = [(''general'', 0.50)]" using e n by (simp add: multi_hits_def Let_def)
    from predict_multi_of_ranked_hits [OF h] h show ?thesis by simp
  qed
  have row: "distinct (rev (argsort tie sims))
          \<and> set (rev (argsort tie sims)) = {0..<length corpus_labels}
          \<and> sorted_wrt (\<lambda>i j. sims ! j \<le> sims ! i) (rev (argsort tie sims))
          \<and> ?hits =
              (let cands = map (\<lambda>idx. (corpus_labels ! idx, py_round (sims ! idx) 3))
                             (filter (\<lambda>idx. fl 0.05 < sims ! idx)
                                (py_slice_to top_k (rev (argsort tie sims))))
               in if cands = [] then [(''general'', 0.50)] else cands)
          \<and> ?r = py_slice_to top_k ?hits"
    if e: "?rh = []" and sm: "tfidf_sims text = Some sims"
      and len: "length sims = length corpus_labels" for sims
  proof -
    let ?all = "rev (argsort tie sims)"
    let ?ranked = "py_slice_to top_k ?all"
    let ?cands = "map (\<lambda>idx. (corpus_labels ! idx, py_round (sims ! idx) 3))
                    (filter (\<lambda>idx. fl 0.05 < sims ! idx) ?ranked)"
    have d_all: "distinct ?all" by (simp add: distinct_argsort)
    have set_all: "set ?all = {0..<length corpus_labels}" by (simp add: set_argsort len)
    have s_all: "sorted_wrt (\<lambda>i j. sims ! j \<le> sims ! i) ?all" by (rule sorted_rev_argsort)
    have d_r: "distinct ?ranked"
      using distinct_py_slice_to [of "\<lambda>i. i" ?all top_k] d_all by simp
    have i_r: "\<forall>idx \<in> set ?ranked. idx < length corpus_labels"
      using set_py_slice_to [of top_k ?all] set_all by auto
    have s_r: "sorted_wrt (\<lambda>i j. sims ! j \<le> sims ! i) ?ranked"
      using s_all by (rule sorted_wrt_py_slice_to)
    have st: "stat_hits sims ?ranked = ?cands" using i_r by (rule stat_hits_filter)
    have h: "?hits = (if ?cands = [] then [(''general'', 0.50)] else ?cands)"
      using e sm by (simp add: multi_hits_def Let_def st)
    have "distinct (map fst ?hits) \<and> sorted (map (\<lambda>x. - snd x) ?hits)"
    proof (cases "?cands = []")
      case True
      then show ?thesis unfolding h by simp
    next
      case False
      with candidates_ranked [OF d_r i_r s_r] show ?thesis unfolding h by simp
    qed
    then have "?r = py_slice_to top_k ?hits"
      using predict_multi_of_ranked_hits [OF refl] by blast
    with d_all set_all s_all h show ?thesis by (simp add: Let_def)
  qed
  from d s len from_hits rx by_regex by_stats no_row row show ?thesis by blast
qed

text \<open>Two regex hits in catalogue order. And the two candidates of a row with two
  similarities above 0.05, whatever the ranking of the eight indices of similarity 0:
  the third index of the ranking is no candidate.\<close>

theorem predict_multi_ranked_witness:
  "predict_multi today_joke (\<lambda>t. None) (\<lambda>i. i) ''tell me a joke today'' 3 =
     [(''time_date'', 0.95), (''joke'', 0.95)]
 \<and> predict_multi (\<lambda>p t. False) (\<lambda>t. Some row_lot_of_morning) (\<lambda>i. i)
      ''a lot of morning, morning'' 3 = [(''greeting'', 0.4), (''thanks'', 0.224)]
 \<and> predict_multi (\<lambda>p t. False) (\<lambda>t. Some row_lot_of_morning) (\<lambda>i. 10 - i)
      ''a lot of morning, morning'' 3 = [(''greeting'', 0.4), (''thanks'', 0.224)]
 \<and> rev (argsort (\<lambda>i. i) row_lot_of_morning) = [0, 2, 9, 8, 7, 6, 5, 4, 3, 1]
 \<and> rev (argsort (\<lambda>i. 10 - i) row_lot_of_morning) = [0, 2, 1, 3, 4, 5, 6, 7, 8, 9]"
proof -
  have rx: "regex_hits today_joke INTENT_PATTERNS ''tell me a joke today'' =
     [(''time_date'', 0.95), (''joke'', 0.95)]"
    by code_simp
  have no: "regex_hits (\<lambda>p t. False) INTENT_PATTERNS ''a lot of morning, morning'' = []"
    by code_simp
  have len: "length row_lot_of_morning = length corpus_labels"
    by code_simp
  have up: "rev (argsort (\<lambda>i. i) row_lot_of_morning) = [0, 2, 9, 8, 7, 6, 5, 4, 3, 1]"
    by code_simp
  have down: "rev (argsort (\<lambda>i. 10 - i) row_lot_of_morning) = [0, 2, 1, 3, 4, 5, 6, 7, 8, 9]"
    by code_simp
  have c1: "map (\<lambda>idx. (corpus_labels ! idx, py_round (row_lot_of_morning ! idx) 3))
      (filter (\<lambda>idx. fl 0.05 < row_lot_of_morning ! idx) (py_slice_to 3 [0, 2, 9, 8, 7, 6, 5, 4, 3, 1]))
      = [(''greeting'', 0.4), (''thanks'', 0.224)]"
    by code_simp
  have c2: "map (\<lambda>idx. (corpus_labels ! idx, py_round (row_lot_of_morning ! idx) 3))
      (filter (\<lambda>idx. fl 0.05 < row_lot_of_morning ! idx) (py_slice_to 3 [0, 2, 1, 3, 4, 5, 6, 7, 8, 9]))
      = [(''greeting'', 0.4), (''thanks'', 0.224)]"
    by code_simp
  have sl: "py_slice_to 3 [(''time_date'', 0.95::rat), (''joke'', 0.95)] =
      [(''time_date'', 0.95), (''joke'', 0.95)]"
    "py_slice_to 3 [(''greeting'', 0.4::rat), (''thanks'', 0.224)] =
      [(''greeting'', 0.4), (''thanks'', 0.224)]"
    by (simp_all add: py_slice_to_def)
  note regex = predict_multi_ranked [of today_joke "\<lambda>t. None" "\<lambda>i. i" "''tell me a joke today''" 3,
      THEN conjunct2, THEN conjunct2, THEN conjunct2, THEN conjunct2, THEN conjunct2,
      THEN conjunct1]
  have a: "predict_multi today_joke (\<lambda>t. None) (\<lambda>i. i) ''tell me a joke today'' 3 =
     [(''time_date'', 0.95), (''joke'', 0.95)]"
    using regex unfolding rx sl by simp
  note stats_up = predict_multi_ranked [of "\<lambda>p t. False" "\<lambda>t. Some row_lot_of_morning" "\<lambda>i. i"
      "''a lot of morning, morning''" 3,
      THEN conjunct2, THEN conjunct2, THEN conjunct2, THEN conjunct2, THEN conjunct2,
      THEN conjunct2, THEN mp, OF no, THEN conjunct2, THEN conjunct2, rule_format,
      OF conjI [OF refl len]]
  have "multi_hits (\<lambda>p t. False) (\<lambda>t. Some row_lot_of_morning) (\<lambda>i. i)
      ''a lot of morning, morning'' 3 = [(''greeting'', 0.4), (''thanks'', 0.224)]"
    using stats_up [THEN conjunct2, THEN conjunct2, THEN conjunct2, THEN conjunct1]
    unfolding Let_def up c1 by simp
  then have b: "predict_multi (\<lambda>p t. False) (\<lambda>t. Some row_lot_of_morning) (\<lambda>i. i)
      ''a lot of morning, morning'' 3 = [(''greeting'', 0.4), (''thanks'', 0.224)]"
    using stats_up [THEN conjunct2, THEN conjunct2, THEN conjunct2, THEN conjunct2]
    by (simp only: sl)
  note stats_down = predict_multi_ranked [of "\<lambda>p t. False" "\<lambda>t. Some row_lot_of_morning"
      "\<lambda>i. 10 - i" "''a lot of morning, morning''" 3,
      THEN conjunct2, THEN conjunct2, THEN conjunct2, THEN conjunct2, THEN conjunct2,
      THEN conjunct2, THEN mp, OF no, THEN conjunct2, THEN conjunct2, rule_format,
      OF conjI [OF refl len]]
  have "multi_hits (\<lambda>p t. False) (\<lambda>t. Some row_lot_of_morning) (\<lambda>i. 10 - i)
      ''a lot of morning, morning'' 3 = [(''greeting'', 0.4), (''thanks'', 0.224)]"
    using stats_down [THEN conjunct2, THEN conjunct2, THEN conjunct2, THEN conjunct1]
    unfolding Let_def down c2 by simp
  then have c: "predict_multi (\<lambda>p t. False) (\<lambda>t. Some row_lot_of_morning) (\<lambda>i. 10 - i)
      ''a lot of morning, morning'' 3 = [(''greeting'', 0.4), (''thanks'', 0.224)]"
    using stats_down [THEN conjunct2, THEN conjunct2, THEN conjunct2, THEN conjunct2]
    by (simp only: sl)
  from a b c up down show ?thesis by (simp only: simp_thms)
qed

text \<open>For a negative \<open>top_k\<close> the slice \<open>[:top_k]\<close> counts from the end: with two hits
  and \<open>top_k = -1\<close> one pair is returned, more than \<open>top_k\<close>.\<close>

theorem predict_multi_negative_top_k:
  "predict_multi today_joke (\<lambda>t. None) (\<lambda>i. i) ''tell me a joke today'' (- 1) =
     [(''time_date'', 0.95)]
 \<and> \<not> int (length (predict_multi today_joke (\<lambda>t. None) (\<lambda>i. i) ''tell me a joke today'' (- 1)))
       \<le> - 1"
  by code_simp
section \<open>Properties of SentimentAnalyser.analyse\<close>

text \<open>The confidence of the arg-max class of a pipeline whose \<open>predict_proba\<close> gives
  probabilities is one of the decimals \<open>0.000\<close>, \<open>0.001\<close>, ..., \<open>1.000\<close>.\<close>

lemma top_class_range:
  assumes top: "top_class proba classes text = (l, c)"
    and ne: "classes \<noteq> []"
    and pr: "\<forall>cls. 0 \<le> proba text cls \<and> proba text cls \<le> 1"
  shows "\<exists>k. 0 \<le> k \<and> k \<le> 1000 \<and> c = of_int k / 1000"
proof -
  let ?probs = "map (proba text) classes"
  have idx: "argmax ?probs < length classes" using argmax_props(1) [of ?probs] ne by simp
  then have p: "?probs ! argmax ?probs = proba text (classes ! argmax ?probs)" by simp
  define x where "x = ?probs ! argmax ?probs"
  have x: "0 \<le> x" "x \<le> 1" using pr unfolding x_def p by simp_all
  have c: "c = of_int (round_half_even (x * 1000)) / 1000"
    using top by (simp add: top_class_def Let_def py_round_def x_def)
  have "round_half_even (of_int 0) \<le> round_half_even (x * 1000)"
    using x by (intro round_half_even_mono) simp
  then have lo: "0 \<le> round_half_even (x * 1000)" unfolding round_half_even_of_int .
  have "round_half_even (x * 1000) \<le> round_half_even (of_int 1000)"
    using x by (intro round_half_even_mono) simp
  then have hi: "round_half_even (x * 1000) \<le> 1000" unfolding round_half_even_of_int .
  from c lo hi show ?thesis by blast
qed

text \<open>The reconciled confidence, computed in floats from two decimals between 0 and 1,
  is within 0.0005 of the exact greater of the first and 0.85 times the second: the three
  float roundings move the greater by less than the distance of a multiple of
  \<open>0.05 / 1000\<close> from the next tie.\<close>

lemma reconcile_close:
  assumes k: "0 \<le> k" "k \<le> 1000" and j: "0 \<le> j" "j \<le> 1000"
  shows "\<bar>py_round (max (fl (of_int k / 1000)) (fl (fl (of_int j / 1000) * fl 0.85))) 3
           - max (of_int k / 1000) (of_int j / 1000 * 0.85)\<bar> \<le> 1 / 2000"
proof -
  let ?c = "of_int k / 1000 :: rat" and ?ec = "of_int j / 1000 :: rat"
  define e :: rat where "e = 1 / 2 ^ 53"
  define q :: rat where "q = ?ec * 0.85"
  define m where "m = max (fl ?c) (fl (fl ?ec * fl 0.85))"
  define n where "n = round_half_even (m * 1000)"
  define Mi where "Mi = max (20 * k) (17 * j)"
  define X where "X = max ?c q"
  have e: "0 < e" "e \<le> 1 / 100000" by (simp_all add: e_def)
  have e1: "\<bar>fl ?c - ?c\<bar> \<le> e" unfolding e_def using k by (intro fl_error) simp_all
  have "\<bar>fl (fl ?ec * fl 0.85) - ?ec * 0.85\<bar> \<le> 3 / 2 ^ 53"
    using j by (intro fl_product_error) simp_all
  then have e2: "\<bar>fl (fl ?ec * fl 0.85) - q\<bar> \<le> 3 * e" by (simp add: q_def e_def)
  have d: "\<bar>m - X\<bar> \<le> 3 * e" using e1 e2 e unfolding m_def X_def by linarith
  have nx: "\<bar>of_int n - m * 1000\<bar> \<le> 1 / 2" unfolding n_def by (rule round_half_even_close)
  have near: "\<bar>of_int n - X * 1000\<bar> < 11 / 20" using d nx e by linarith
  have X: "X * 1000 = of_int Mi / 20"
  proof (cases "20 * k \<le> 17 * j")
    case True
    then have "(of_int (20 * k) :: rat) \<le> of_int (17 * j)" unfolding of_int_le_iff .
    then have "?c \<le> q" by (simp add: q_def)
    then have "X = q" by (simp add: X_def)
    moreover have "Mi = 17 * j" using True by (simp add: Mi_def)
    ultimately show ?thesis by (simp add: q_def)
  next
    case False
    then have "17 * j \<le> 20 * k" by simp
    then have "(of_int (17 * j) :: rat) \<le> of_int (20 * k)" unfolding of_int_le_iff .
    then have "q \<le> ?c" by (simp add: q_def)
    then have "X = ?c" by (simp add: X_def)
    moreover have "Mi = 20 * k" using False by (simp add: Mi_def)
    ultimately show ?thesis by simp
  qed
  have "\<bar>of_int n - of_int Mi / 20\<bar> < (11 / 20 :: rat)" using near unfolding X .
  then have "\<bar>20 * of_int n - of_int Mi\<bar> < (11 :: rat)" by linarith
  then have "\<bar>(of_int (20 * n - Mi) :: rat)\<bar> < of_int 11" by simp
  then have "\<bar>20 * n - Mi\<bar> < 11" unfolding of_int_abs [symmetric] of_int_less_iff .
  then have "\<bar>20 * n - Mi\<bar> \<le> 10" by simp
  then have "\<bar>(of_int (20 * n - Mi) :: rat)\<bar> \<le> of_int 10"
    unfolding of_int_abs [symmetric] of_int_le_iff .
  then have "\<bar>20 * of_int n - of_int Mi\<bar> \<le> (10 :: rat)" by simp
  then have "\<bar>of_int n - of_int Mi / 20\<bar> \<le> (1 / 2 :: rat)" by linarith
  then have "\<bar>of_int n - X * 1000\<bar> \<le> 1 / 2" unfolding X .
  then have "\<bar>of_int n / 1000 - X\<bar> \<le> 1 / 2000" by linarith
  moreover have "py_round m 3 = of_int n / 1000" by (simp add: py_round_def n_def)
  ultimately have "\<bar>py_round m 3 - X\<bar> \<le> 1 / 2000" by (simp only:)
  then show ?thesis unfolding m_def X_def q_def .
qed

lemma analyse_blank:
  "text = [] \<or> str_strip py text = [] \<Longrightarrow> analyse py pol_proba emo_proba text = default_result"
  by (simp add: analyse_def)

lemma analyse_emotion:
  "\<not> (text = [] \<or> str_strip py text = []) \<Longrightarrow>
   emotion (analyse py pol_proba emo_proba text) = fst (top_class emo_proba emo_classes text) \<and>
   emotion_conf (analyse py pol_proba emo_proba text) =
     snd (top_class emo_proba emo_classes text)"
  by (simp add: analyse_def Let_def split: prod.splits)

text \<open>
  Claim C1. The two pipelines give probabilities. When the emotion that \<open>analyse\<close>
  classifies for a text is \<open>anger\<close>, \<open>fear\<close> or \<open>sadness\<close>, and the polarity pipeline
  gives \<open>neutral\<close> with a confidence \<open>c\<close> below 0.70, the polarity of the result is
  \<open>negative\<close> and its confidence is the greater of \<open>c\<close> and 0.85 times the emotion
  confidence, as the floats compute it, rounded to three decimals: it is a multiple of
  0.001, it is within 0.0005 of the exact greater of the two, it is at least \<open>c\<close>, and
  it is at least 0.85 times the emotion confidence less the rounding tolerance of 0.0005.
  (The emotion of the result is the class of the emotion pipeline: a blank text, which no
  pipeline classifies, has the emotion \<open>neutral\<close>.)
\<close>

theorem analyse_reconciles:
  assumes emo: "emotion (analyse py pol_proba emo_proba text) \<in> {''anger'', ''fear'', ''sadness''}"
    and pol: "top_class pol_proba pol_classes text = (''neutral'', c)"
    and low: "c < 0.70"
    and pp: "\<forall>cls. 0 \<le> pol_proba text cls \<and> pol_proba text cls \<le> 1"
    and ep: "\<forall>cls. 0 \<le> emo_proba text cls \<and> emo_proba text cls \<le> 1"
  shows "polarity (analyse py pol_proba emo_proba text) = ''negative''
       \<and> polarity_conf (analyse py pol_proba emo_proba text) =
           py_round (max (fl c)
                         (fl (fl (emotion_conf (analyse py pol_proba emo_proba text)) * fl 0.85))) 3
       \<and> (\<exists>k. polarity_conf (analyse py pol_proba emo_proba text) = of_int k / 1000)
       \<and> \<bar>polarity_conf (analyse py pol_proba emo_proba text)
            - max c (emotion_conf (analyse py pol_proba emo_proba text) * 0.85)\<bar> \<le> 0.0005
       \<and> c \<le> polarity_conf (analyse py pol_proba emo_proba text)
       \<and> emotion_conf (analyse py pol_proba emo_proba text) * 0.85 - 0.0005
           \<le> polarity_conf (analyse py pol_proba emo_proba text)
       \<and> emotion (analyse py pol_proba emo_proba text) = fst (top_class emo_proba emo_classes text)
       \<and> emotion_conf (analyse py pol_proba emo_proba text) =
           snd (top_class emo_proba emo_classes text)"
proof -
  let ?r = "analyse py pol_proba emo_proba text"
  have nonblank: "\<not> (text = [] \<or> str_strip py text = [])"
  proof
    assume "text = [] \<or> str_strip py text = []"
    then have "?r = default_result" by (rule analyse_blank)
    with emo show False by (simp add: default_result_def)
  qed
  note e = analyse_emotion [OF nonblank, of pol_proba emo_proba]
  obtain el ec where top: "top_class emo_proba emo_classes text = (el, ec)"
    by (cases "top_class emo_proba emo_classes text")
  from e top have el: "emotion ?r = el" and ec: "emotion_conf ?r = ec" by simp_all
  from emo el have neg: "el \<in> set NEG_EMOTIONS" by (simp add: NEG_EMOTIONS_def)
  define final where "final = py_round (max (fl c) (fl (fl ec * fl 0.85))) 3"
  have p: "polarity ?r = ''negative''" and pc: "polarity_conf ?r = final"
    using nonblank neg low by (simp_all add: analyse_def Let_def pol top final_def)
  obtain k where k: "0 \<le> k" "k \<le> 1000" and ck: "c = of_int k / 1000"
    using top_class_range [OF pol _ pp] by (auto simp add: pol_classes_def)
  obtain j where j: "0 \<le> j" "j \<le> 1000" and ej: "ec = of_int j / 1000"
    using top_class_range [OF top _ ep] by (auto simp add: emo_classes_def)
  have mult: "\<exists>i. final = of_int i / 1000" by (auto simp add: final_def py_round_def)
  have close: "\<bar>final - max c (ec * 0.85)\<bar> \<le> 1 / 2000"
    unfolding final_def ck ej using k j by (rule reconcile_close)
  have "py_round (fl c) 3 \<le> final" unfolding final_def by (rule py_round_mono) simp
  moreover have "py_round (fl c) 3 = c" unfolding ck using k by (intro py_round_fl_decimal) simp_all
  ultimately have ge: "c \<le> final" by simp
  have tol: "ec * 0.85 - 1 / 2000 \<le> final"
  proof -
    have "ec * 0.85 \<le> max c (ec * 0.85)" by (rule max.cobounded2)
    with close show ?thesis by linarith
  qed
  from p pc mult close ge tol e show ?thesis by (simp add: ec final_def)
qed

text \<open>Neutral at 0.381 and sadness at 0.47: the product of the decimals is the tie 0.3995,
  which rounds to 0.4; the product of the floats is below the tie, and the confidence is
  0.399.\<close>

theorem analyse_reconciles_witness:
  "polarity (analyse ascii_methods leaning_neutral mostly_sad ''I lost my keys'') = ''negative''
 \<and> polarity_conf (analyse ascii_methods leaning_neutral mostly_sad ''I lost my keys'') = 0.399
 \<and> emotion (analyse ascii_methods leaning_neutral mostly_sad ''I lost my keys'') = ''sadness''
 \<and> emotion_conf (analyse ascii_methods leaning_neutral mostly_sad ''I lost my keys'') = 0.47
 \<and> top_class leaning_neutral pol_classes ''I lost my keys'' = (''neutral'', 0.381)
 \<and> py_round (0.47 * 0.85) 3 = 0.4"
proof -
  have emo: "emotion (analyse ascii_methods leaning_neutral mostly_sad ''I lost my keys'') \<in>
      {''anger'', ''fear'', ''sadness''}"
    by code_simp
  have pol: "top_class leaning_neutral pol_classes ''I lost my keys'' = (''neutral'', 0.381)"
    by code_simp
  have low: "(0.381::rat) < 0.70" by simp
  have pp: "\<forall>cls. 0 \<le> leaning_neutral ''I lost my keys'' cls \<and>
      leaning_neutral ''I lost my keys'' cls \<le> 1"
    by (simp add: leaning_neutral_def)
  have ep: "\<forall>cls. 0 \<le> mostly_sad ''I lost my keys'' cls \<and> mostly_sad ''I lost my keys'' cls \<le> 1"
    by (simp add: mostly_sad_def)
  have ec: "emotion_conf (analyse ascii_methods leaning_neutral mostly_sad ''I lost my keys'') = 0.47"
    by code_simp
  have el: "emotion (analyse ascii_methods leaning_neutral mostly_sad ''I lost my keys'') = ''sadness''"
    by code_simp
  have r: "py_round (max (fl 0.381) (fl (fl 0.47 * fl 0.85))) 3 = 0.399"
    by code_simp
  have x: "py_round (0.47 * 0.85) 3 = 0.4"
    by code_simp
  from analyse_reconciles [OF emo pol low pp ep] ec el r x pol show ?thesis by simp
qed
section \<open>Properties of GeminiClient.respond\<close>

lemma attempts: "[1..<MAX_RETRIES + 1] = [1, 2, 3]"
  by (simp add: MAX_RETRIES_def upt_rec)

lemma respond_loop_all_fail:
  assumes "backend (calls c) enriched = Inl e1"
    and "backend (calls c + 1) enriched = Inl e2"
    and "backend (calls c + 2) enriched = Inl e3"
  shows "respond_loop py backend enriched intent sentiment [1, 2, 3] c =
     (fallback_response intent sentiment,
      c\<lparr>calls := calls c + 3, warned := warned c @ [1, 2, 3],
        slept := slept c @ [RETRY_BACKOFF * 1, RETRY_BACKOFF * 2]\<rparr>)"
  using assms by (simp add: MAX_RETRIES_def Let_def)

lemma respond_loop_second:
  assumes "backend (calls c) enriched = Inl e1"
    and "backend (calls c + 1) enriched = Inr reply"
  shows "respond_loop py backend enriched intent sentiment [1, 2, 3] c =
     (post_process py reply,
      c\<lparr>calls := calls c + 2, warned := warned c @ [1], slept := slept c @ [RETRY_BACKOFF * 1]\<rparr>)"
  using assms by (simp add: MAX_RETRIES_def Let_def)

lemma respond_all_fail:
  assumes "\<forall>k < 3. isl (backend (calls c + k)
              (build_enriched_prompt user_text intent intent_conf (or_empty entities) sentiment
                 context_summary))"
  shows "respond py backend c user_text intent intent_conf entities sentiment context_summary =
        (fallback_response intent sentiment,
         c\<lparr>calls := calls c + 3, warned := warned c @ [1, 2, 3],
           slept := slept c @ [1.5, 3]\<rparr>)"
proof -
  let ?p = "build_enriched_prompt user_text intent intent_conf (or_empty entities) sentiment
              context_summary"
  have r: "respond py backend c user_text intent intent_conf entities sentiment context_summary =
      respond_loop py backend ?p intent sentiment [1, 2, 3] c"
    unfolding respond_def Let_def attempts by (rule refl)
  have "isl (backend (calls c) ?p)" using assms [rule_format, of 0] by simp
  moreover have "isl (backend (calls c + 1) ?p)" using assms [rule_format, of 1] by simp
  moreover have "isl (backend (calls c + 2) ?p)" using assms [rule_format, of 2] by simp
  ultimately obtain e1 e2 e3 where f: "backend (calls c) ?p = Inl e1"
    "backend (calls c + 1) ?p = Inl e2" "backend (calls c + 2) ?p = Inl e3"
    by (auto simp add: isl_def)
  from respond_loop_all_fail [where backend = backend and c = c and enriched = ?p, OF f]
  show ?thesis
    by (simp add: r RETRY_BACKOFF_def)
qed

text \<open>
  Claim C2. When the backend raises on the three calls that follow the calls already made,
  \<open>respond\<close> makes exactly three attempts (it sleeps 1.5 and 3 seconds between them)
  and returns the fallback string. When the backend raises on the first of these calls and
  answers the second, \<open>respond\<close> makes exactly two attempts and returns the text of the
  answer as \<open>_post_process\<close> cleans it with the methods of \<open>str\<close>. The fallback
  string is the prefix \<open>I'm sorry you're having a tough time.\<close> when the polarity of the
  sentiment is \<open>negative\<close> (and no prefix otherwise), followed by the canned response of
  the intent, or by the request to rephrase when the intent has no canned response.
\<close>

theorem respond_retries:
  "((\<forall>k < 3. isl (backend (calls c + k)
              (build_enriched_prompt user_text intent intent_conf (or_empty entities) sentiment
                 context_summary))) \<longrightarrow>
      respond py backend c user_text intent intent_conf entities sentiment context_summary =
        (fallback_response intent sentiment,
         c\<lparr>calls := calls c + 3, warned := warned c @ [1, 2, 3],
           slept := slept c @ [1.5, 3]\<rparr>))
 \<and> (isl (backend (calls c)
            (build_enriched_prompt user_text intent intent_conf (or_empty entities) sentiment
               context_summary)) \<and>
     backend (calls c + 1)
       (build_enriched_prompt user_text intent intent_conf (or_empty entities) sentiment
          context_summary) = Inr reply \<longrightarrow>
      respond py backend c user_text intent intent_conf entities sentiment context_summary =
        (post_process py reply,
         c\<lparr>calls := calls c + 2, warned := warned c @ [1], slept := slept c @ [1.5]\<rparr>))
 \<and> fallback_response intent sentiment =
       (if \<exists>s. sentiment = Some s \<and> polarity s = ''negative''
        then ''I'm sorry you're having a tough time. '' else []) @
       (case map_of INTENT_FALLBACKS intent of
          Some canned \<Rightarrow> canned
        | None \<Rightarrow> ''I'm here to help! Could you rephrase your question so I can assist better?'')"
proof -
  let ?p = "build_enriched_prompt user_text intent intent_conf (or_empty entities) sentiment
              context_summary"
  let ?r = "respond py backend c user_text intent intent_conf entities sentiment context_summary"
  have r: "?r = respond_loop py backend ?p intent sentiment [1, 2, 3] c"
    unfolding respond_def Let_def attempts by (rule refl)
  have fail: "?r = (fallback_response intent sentiment,
         c\<lparr>calls := calls c + 3, warned := warned c @ [1, 2, 3], slept := slept c @ [1.5, 3]\<rparr>)"
    if all: "\<forall>k < 3. isl (backend (calls c + k) ?p)"
    using that by (rule respond_all_fail)
  have second: "?r = (post_process py reply,
         c\<lparr>calls := calls c + 2, warned := warned c @ [1], slept := slept c @ [1.5]\<rparr>)"
    if "isl (backend (calls c) ?p)" and ok: "backend (calls c + 1) ?p = Inr reply"
  proof -
    from that(1) obtain e1 where f: "backend (calls c) ?p = Inl e1" by (auto simp add: isl_def)
    from respond_loop_second [where backend = backend and c = c and enriched = ?p, OF f ok]
    show ?thesis
      by (simp add: r RETRY_BACKOFF_def)
  qed
  have fb: "fallback_response intent sentiment =
       (if \<exists>s. sentiment = Some s \<and> polarity s = ''negative''
        then ''I'm sorry you're having a tough time. '' else []) @
       (case map_of INTENT_FALLBACKS intent of
          Some canned \<Rightarrow> canned
        | None \<Rightarrow> ''I'm here to help! Could you rephrase your question so I can assist better?'')"
    by (cases sentiment; cases "map_of INTENT_FALLBACKS intent")
      (simp_all add: fallback_response_def Let_def sorry_prefix_def rephrase_request_def)
  from fail second fb show ?thesis by blast
qed

text \<open>A backend that is down, and one that answers the second attempt.\<close>

theorem respond_retries_witness:
  "respond ascii_methods backend_down \<lparr>calls = 0, warned = [], slept = []\<rparr> ''hello, I feel awful'' ''greeting''
      0.95 None (Some sad_sentiment) [] =
     (''I'm sorry you're having a tough time. Hello! '' @ [CHR 0xF0, CHR 0x9F, CHR 0x91, CHR 0x8B]
        @ '' I'm DynamiChat. How can I help you today?'',
      \<lparr>calls = 3, warned = [1, 2, 3], slept = [1.5, 3]\<rparr>)
 \<and> respond ascii_methods backend_flaky \<lparr>calls = 0, warned = [], slept = []\<rparr> ''hello'' ''greeting''
      0.95 None None [] =
     (''Hi there!'' @ [CHR 0x0A] @ ''How are you?'',
      \<lparr>calls = 2, warned = [1], slept = [1.5]\<rparr>)"
proof -
  have a: "respond ascii_methods backend_down \<lparr>calls = 0, warned = [], slept = []\<rparr> ''hello, I feel awful''
      ''greeting'' 0.95 None (Some sad_sentiment) [] =
     (''I'm sorry you're having a tough time. Hello! '' @ [CHR 0xF0, CHR 0x9F, CHR 0x91, CHR 0x8B]
        @ '' I'm DynamiChat. How can I help you today?'',
      \<lparr>calls = 3, warned = [1, 2, 3], slept = [1.5, 3]\<rparr>)"
    by code_simp
  have b: "respond ascii_methods backend_flaky \<lparr>calls = 0, warned = [], slept = []\<rparr> ''hello'' ''greeting''
      0.95 None None [] =
     (''Hi there!'' @ [CHR 0x0A] @ ''How are you?'',
      \<lparr>calls = 2, warned = [1], slept = [1.5]\<rparr>)"
    by code_simp
  from respond_retries [where backend = backend_down
      and c = "\<lparr>calls = 0, warned = [], slept = []\<rparr>" and user_text = "''hello, I feel awful''"
      and intent = "''greeting''" and intent_conf = "0.95" and entities = None
      and sentiment = "Some sad_sentiment" and context_summary = "[]" and py = ascii_methods] a b
  show ?thesis by simp
qed


section \<open>Properties of ChatbotCore.process_message\<close>

text \<open>The client and the backend of the turn of \<open>world_down\<close>.\<close>

lemma world_down_backend:
  "get_gemini world_down new_core = Inr \<lparr>calls = 0, warned = [], slept = []\<rparr>"
  "w_send_message world_down = backend_down"
  by (simp_all add: get_gemini_def new_client_def world_down_def world_no_key_def new_core_def)

text \<open>A turn in a state whose analytics log is not a list: the \<open>append\<close> of
  \<open>record\<close>, outside the \<open>try\<close>, raises, and the exception leaves
  \<open>process_message\<close>.\<close>

lemma process_message_log_not_a_list:
  "fst (process_message w (core\<lparr>core_analytics := NotAList\<rparr>) user_text) =
     Inl (AttributeError ''append'')"
  by (simp add: process_message_def Let_def analytics_record_def split: prod.splits sum.splits)

text \<open>
  Claim C3, amended. For every text and every behaviour of the world, in a state of the
  orchestrator whose analytics log is a list, \<open>process_message\<close> returns an envelope
  with all its fields: the intent and its confidence from \<open>predict\<close>, the ranked
  intents, the entities, the sentiment, the summary of the memory after the user turn and
  the rounded latency. An exception of building the client does not leave the function:
  the text of the envelope is then the emergency fallback and the source is
  \<open>fallback\<close>. When there is a client, the text is what \<open>respond\<close> returns and the
  source is \<open>gemini\<close>; an exception of the backend during the request does not reach
  the orchestrator, and when the backend raises on all three attempts the text is the
  fallback string of the gateway, still with the source \<open>gemini\<close>. In both cases the
  bot turn is added to the memory and one record is appended to the analytics log.
\<close>

theorem process_message_envelope:
  assumes st: "core_analytics core = Records rs"
  shows "\<exists>r. fst (process_message w core user_text) = Inr r
     \<and> resp_intent r = fst (predict (w_search w) (w_sims w) user_text)
     \<and> resp_intent_conf r = snd (predict (w_search w) (w_sims w) user_text)
     \<and> resp_multi_intents r = predict_multi (w_search w) (w_sims w) (w_tie w) user_text 3
     \<and> resp_entities r = ner_extract (w_findall w) user_text
     \<and> resp_sentiment r = analyse (w_str w) (w_pol_proba w) (w_emo_proba w) user_text
     \<and> resp_context_summary r =
         get_summary (w_hash_rank w)
           (add_turn (core_memory core) (w_time_user_turn w) ''user'' user_text
              (Some (fst (predict (w_search w) (w_sims w) user_text)))
              (Some (ner_extract (w_findall w) user_text)))
     \<and> resp_response_time_ms r = py_round (fl (fl (w_perf_end w - w_perf_start w) * 1000)) 1
     \<and> (\<forall>exc. get_gemini w core = Inl exc \<longrightarrow>
            resp_text r = emergency_fallback (resp_intent r) (resp_sentiment r)
          \<and> resp_source r = ''fallback''
          \<and> core_gemini (snd (process_message w core user_text)) = core_gemini core)
     \<and> (\<forall>gemini. get_gemini w core = Inr gemini \<longrightarrow>
            resp_text r =
              fst (respond (w_str w) (w_send_message w) gemini user_text (resp_intent r)
                     (resp_intent_conf r) (Some (resp_entities r)) (Some (resp_sentiment r))
                     (resp_context_summary r))
          \<and> core_gemini (snd (process_message w core user_text)) =
              Some (snd (respond (w_str w) (w_send_message w) gemini user_text (resp_intent r)
                           (resp_intent_conf r) (Some (resp_entities r))
                           (Some (resp_sentiment r)) (resp_context_summary r)))
          \<and> resp_source r = ''gemini''
          \<and> ((\<forall>k < 3. isl (w_send_message w (calls gemini + k)
                  (build_enriched_prompt user_text (resp_intent r) (resp_intent_conf r)
                     (resp_entities r) (Some (resp_sentiment r)) (resp_context_summary r))))
              \<longrightarrow> resp_text r = fallback_response (resp_intent r) (Some (resp_sentiment r))))
     \<and> core_memory (snd (process_message w core user_text)) =
         add_turn
           (add_turn (core_memory core) (w_time_user_turn w) ''user'' user_text
              (Some (fst (predict (w_search w) (w_sims w) user_text)))
              (Some (ner_extract (w_findall w) user_text)))
           (w_time_model_turn w) ''model'' (resp_text r) None None
     \<and> (\<exists>entry. core_analytics (snd (process_message w core user_text)) = Records (rs @ [entry])
          \<and> rec_timestamp entry = w_time_record w
          \<and> rec_user_text entry = user_text
          \<and> rec_bot_text entry = resp_text r
          \<and> rec_intent entry = resp_intent r
          \<and> rec_response_time_ms entry = resp_response_time_ms r)"
proof -
  obtain intent intent_conf where
    p: "predict (w_search w) (w_sims w) user_text = (intent, intent_conf)"
    by (cases "predict (w_search w) (w_sims w) user_text")
  define entities where "entities = ner_extract (w_findall w) user_text"
  define sentiment where "sentiment = analyse (w_str w) (w_pol_proba w) (w_emo_proba w) user_text"
  define ctx where "ctx = get_summary (w_hash_rank w)
      (add_turn (core_memory core) (w_time_user_turn w) ''user'' user_text
         (Some intent) (Some entities))"
  note defs = entities_def [symmetric] sentiment_def [symmetric] ctx_def [symmetric]
  show ?thesis
  proof (cases "get_gemini w core")
    case (Inl exc)
    then have ask: "ask_gemini w core user_text intent intent_conf entities sentiment ctx = Inl exc"
      by (simp add: ask_gemini_def)
    show ?thesis
      by (simp add: process_message_def Let_def p defs analytics_record_def st ask Inl)
  next
    case (Inr gemini)
    obtain reply c' where resp: "respond (w_str w) (w_send_message w) gemini user_text intent
        intent_conf (Some entities) (Some sentiment) ctx = (reply, c')"
      by (cases "respond (w_str w) (w_send_message w) gemini user_text intent
        intent_conf (Some entities) (Some sentiment) ctx")
    have ask: "ask_gemini w core user_text intent intent_conf entities sentiment ctx =
        Inr (reply, c')"
      by (simp add: ask_gemini_def Inr resp)
    have down: "reply = fallback_response intent (Some sentiment)"
      if "\<forall>k < 3. isl (w_send_message w (calls gemini + k)
            (build_enriched_prompt user_text intent intent_conf entities (Some sentiment) ctx))"
    proof -
      from that have "\<forall>k < 3. isl (w_send_message w (calls gemini + k)
            (build_enriched_prompt user_text intent intent_conf (or_empty (Some entities))
               (Some sentiment) ctx))"
        by (simp add: or_empty_def)
      from respond_all_fail [where backend = "w_send_message w" and c = gemini
          and user_text = user_text and intent = intent and intent_conf = intent_conf
          and entities = "Some entities" and sentiment = "Some sentiment"
          and context_summary = ctx and py = "w_str w", OF this] resp
      show ?thesis by simp
    qed
    show ?thesis
      using down
      by (simp add: process_message_def Let_def p defs analytics_record_def st ask Inr resp)
  qed
qed

text \<open>A turn without an API key ends in the emergency fallback; with a key and a
  backend that answers the second attempt it ends in the reply.\<close>

theorem process_message_envelope_witness:
  "\<not> isl (fst (process_message world_no_key new_core ''tell me a joke today''))
 \<and> resp_source (projr (fst (process_message world_no_key new_core ''tell me a joke today''))) =
     ''fallback''
 \<and> resp_text (projr (fst (process_message world_no_key new_core ''tell me a joke today''))) =
     ''I hear you '' @ [CHR 0xE2, CHR 0x80, CHR 0x93] @
     '' sorry you're going through that. I'm here to help! Could you rephrase that for me? '' @
     [CHR 0xF0, CHR 0x9F, CHR 0x98, CHR 0x8A]
 \<and> resp_intent (projr (fst (process_message world_no_key new_core ''tell me a joke today''))) =
     ''time_date''
 \<and> resp_response_time_ms
       (projr (fst (process_message world_no_key new_core ''tell me a joke today''))) = 250
 \<and> resp_source (projr (fst (process_message world_flaky new_core ''tell me a joke today''))) =
     ''gemini''
 \<and> resp_text (projr (fst (process_message world_flaky new_core ''tell me a joke today''))) =
     ''Hi there!'' @ [CHR 0x0A] @ ''How are you?''"
proof -
  have st: "core_analytics new_core = Records []" by (simp add: new_core_def)
  have a: "resp_source (projr (fst (process_message world_no_key new_core
      ''tell me a joke today''))) = ''fallback''"
    by code_simp
  have b: "resp_text (projr (fst (process_message world_no_key new_core
      ''tell me a joke today''))) =
     ''I hear you '' @ [CHR 0xE2, CHR 0x80, CHR 0x93] @
     '' sorry you're going through that. I'm here to help! Could you rephrase that for me? '' @
     [CHR 0xF0, CHR 0x9F, CHR 0x98, CHR 0x8A]"
    by code_simp
  have c: "resp_intent (projr (fst (process_message world_no_key new_core
      ''tell me a joke today''))) = ''time_date''"
    by code_simp
  have t: "resp_response_time_ms (projr (fst (process_message world_no_key new_core
      ''tell me a joke today''))) = 250"
    by code_simp
  have d: "resp_source (projr (fst (process_message world_flaky new_core
      ''tell me a joke today''))) = ''gemini''"
    by code_simp
  have e: "resp_text (projr (fst (process_message world_flaky new_core
      ''tell me a joke today''))) = ''Hi there!'' @ [CHR 0x0A] @ ''How are you?''"
    by code_simp
  from process_message_envelope [OF st, of world_no_key "''tell me a joke today''"]
  have "\<not> isl (fst (process_message world_no_key new_core ''tell me a joke today''))"
    by auto
  with a b c t d e show ?thesis by simp
qed

text \<open>The claim as the specification states it fails for an exception of the request:
  with an API key and a backend that raises on every call, the gateway makes its three
  attempts and returns its own fallback string, and the envelope carries this string with
  the source \<open>gemini\<close>, not the emergency fallback with the source \<open>fallback\<close>.\<close>

theorem process_message_backend_down:
  "\<not> isl (fst (process_message world_down new_core ''tell me a joke today''))
 \<and> resp_source (projr (fst (process_message world_down new_core ''tell me a joke today''))) =
     ''gemini''
 \<and> resp_source (projr (fst (process_message world_down new_core ''tell me a joke today''))) \<noteq>
     ''fallback''
 \<and> resp_text (projr (fst (process_message world_down new_core ''tell me a joke today''))) =
     ''I'm sorry you're having a tough time. I don't have direct access to your clock, but your device should show the current time.''
 \<and> resp_text (projr (fst (process_message world_down new_core ''tell me a joke today''))) \<noteq>
     emergency_fallback
       (resp_intent (projr (fst (process_message world_down new_core ''tell me a joke today''))))
       (resp_sentiment (projr (fst (process_message world_down new_core ''tell me a joke today''))))
 \<and> core_gemini (snd (process_message world_down new_core ''tell me a joke today'')) =
     Some \<lparr>calls = 3, warned = [1, 2, 3], slept = [1.5, 3]\<rparr>
 \<and> get_gemini world_down new_core = Inr \<lparr>calls = 0, warned = [], slept = []\<rparr>
 \<and> w_send_message world_down = backend_down"
proof -
  have a: "\<not> isl (fst (process_message world_down new_core ''tell me a joke today''))"
    by code_simp
  have b: "resp_source (projr (fst (process_message world_down new_core
      ''tell me a joke today''))) = ''gemini''"
    by code_simp
  have c: "resp_text (projr (fst (process_message world_down new_core
      ''tell me a joke today''))) =
     ''I'm sorry you're having a tough time. I don't have direct access to your clock, but your device should show the current time.''"
    by code_simp
  have d: "resp_text (projr (fst (process_message world_down new_core
      ''tell me a joke today''))) \<noteq>
     emergency_fallback
       (resp_intent (projr (fst (process_message world_down new_core ''tell me a joke today''))))
       (resp_sentiment (projr (fst (process_message world_down new_core ''tell me a joke today''))))"
    by code_simp
  have e: "core_gemini (snd (process_message world_down new_core ''tell me a joke today'')) =
     Some \<lparr>calls = 3, warned = [1, 2, 3], slept = [1.5, 3]\<rparr>"
    by code_simp
  from a b c d e world_down_backend show ?thesis by simp
qed

end
